theory Spec2Isabelle
  imports Complex_Main
begin

section \<open>JavaScript values used by the converter\<close>

text \<open>
  Strings are character lists; a character stands for one code unit of a JavaScript
  string. An exception is a value: the constructor is the kind of
  the JavaScript error and the argument is its message. A function that can throw
  returns \<open>exn + 'a\<close>, with \<open>Inl\<close> for the exception.
\<close>

datatype exn =
    Error string
  | TypeError string
  | SecurityError string
  | NotFoundError string

subsection \<open>String primitives\<close>

text \<open>\<^verbatim>\<open>s.startsWith(p)\<close>\<close>

fun startsWith :: "string \<Rightarrow> string \<Rightarrow> bool" where
  "startsWith s [] = True"
| "startsWith [] (p # ps) = False"
| "startsWith (c # cs) (p # ps) = (c = p \<and> startsWith cs ps)"

text \<open>\<^verbatim>\<open>s.includes(p)\<close>: \<open>p\<close> occurs in \<open>s\<close> as a contiguous substring.\<close>

fun str_includes :: "string \<Rightarrow> string \<Rightarrow> bool" where
  "str_includes [] p = (p = [])"
| "str_includes (c # cs) p = (startsWith (c # cs) p \<or> str_includes cs p)"

text \<open>
  \<^verbatim>\<open>s.split(sep)\<close> for a string separator: the pieces between the occurrences of
  \<open>sep\<close>, found from left to right without overlap. \<open>cur\<close> is the piece being
  read. An empty separator splits into single characters.
\<close>

function split_from :: "string \<Rightarrow> string \<Rightarrow> string \<Rightarrow> string list" where
  "split_from sep cur [] = [cur]"
| "split_from sep cur (c # cs) =
     (if sep \<noteq> [] \<and> startsWith (c # cs) sep
      then cur # split_from sep [] (drop (length sep) (c # cs))
      else split_from sep (cur @ [c]) cs)"
  by pat_completeness auto
termination
  by (relation "measure (\<lambda>(sep, cur, s). length s)") auto

definition split :: "string \<Rightarrow> string \<Rightarrow> string list" where
  "split s sep = (if sep = [] then map (\<lambda>c. [c]) s else split_from sep [] s)"

text \<open>\<^verbatim>\<open>xs[i]\<close> on an array: \<open>undefined\<close> out of range, here \<open>None\<close>.\<close>

definition at_index :: "'a list \<Rightarrow> nat \<Rightarrow> 'a option" where
  "at_index xs i = (if i < length xs then Some (xs ! i) else None)"

subsection \<open>The regular expression of the share identifier\<close>

text \<open>
  \<^verbatim>\<open>/^[0-9a-f]{8}-[0-9a-f]{4}-[0-9a-f]{4}-[0-9a-f]{4}-[0-9a-f]{12}$/i\<close>.
  The pattern is a sequence of atoms with fixed repetition counts, anchored at both ends,
  so matching reads the string once from the left. The flag \<open>i\<close> makes the class
  \<open>[0-9a-f]\<close> accept the upper-case letters too.
\<close>

definition is_hex_i :: "char \<Rightarrow> bool" where
  "is_hex_i c =
     (c \<in> set ''0123456789'' \<or> c \<in> set ''abcdef'' \<or> c \<in> set ''ABCDEF'')"

datatype atom = Hex nat | Lit char

fun match_atoms :: "atom list \<Rightarrow> string \<Rightarrow> bool" where
  "match_atoms [] s = (s = [])"
| "match_atoms (Hex n # as) s =
     (n \<le> length s \<and> list_all is_hex_i (take n s) \<and> match_atoms as (drop n s))"
| "match_atoms (Lit c # as) [] = False"
| "match_atoms (Lit c # as) (d # ds) = (d = c \<and> match_atoms as ds)"

definition uuidRegex :: "atom list" where
  "uuidRegex =
     [Hex 8, Lit (CHR ''-''), Hex 4, Lit (CHR ''-''), Hex 4, Lit (CHR ''-''),
      Hex 4, Lit (CHR ''-''), Hex 12]"

definition uuidRegex_test :: "string \<Rightarrow> bool" where
  "uuidRegex_test s = match_atoms uuidRegex s"

text \<open>
  The token shape as the specification words it: 8-4-4-4-12 hexadecimal characters
  separated by hyphens, 36 characters in all.
\<close>

definition token_shape :: "string \<Rightarrow> bool" where
  "token_shape s =
     (length s = 36 \<and>
      (\<forall>i < 36. if i \<in> {8, 13, 18, 23} then s ! i = CHR ''-'' else is_hex_i (s ! i)))"

text \<open>The same shape, group by group, as the pattern reads it.\<close>

definition token_groups :: "string \<Rightarrow> bool" where
  "token_groups s =
     (length s = 36 \<and> (\<forall>i<8. is_hex_i (s ! i)) \<and> s ! 8 = CHR ''-'' \<and>
      (\<forall>i<4. is_hex_i (s ! (9 + i))) \<and> s ! 13 = CHR ''-'' \<and>
      (\<forall>i<4. is_hex_i (s ! (14 + i))) \<and> s ! 18 = CHR ''-'' \<and>
      (\<forall>i<4. is_hex_i (s ! (19 + i))) \<and> s ! 23 = CHR ''-'' \<and>
      (\<forall>i<12. is_hex_i (s ! (24 + i))))"

section \<open>The platform's URL parser\<close>

text \<open>
  \<^verbatim>\<open>new URL(url)\<close> belongs to the browser, not to the repository. The validator reads
  two fields of the parsed object. The parser is a parameter of the model: \<open>None\<close>
  stands for the \<open>TypeError\<close> that the constructor throws on a string it cannot parse.
\<close>

record URL =
  hostname :: string
  pathname :: string

type_synonym url_parser = "string \<Rightarrow> URL option"

text \<open>
  For closed examples the model needs the fields of concrete links. \<open>URL_http\<close> is
  a partial reference parser for links of the form \<^verbatim>\<open>http(s)://host/path?query#fragment\<close>:
  the scheme is read without regard to case, the host is made of labels of letters,
  digits and hyphens separated by dots and is lower-cased, the path is made of
  characters that the platform neither escapes nor rewrites, and the query and the
  fragment are dropped. Where it answers, it gives the platform's \<open>hostname\<close> and
  \<open>pathname\<close>. It refuses every other string (ports, credentials, numeric hosts,
  dot segments, characters that need escaping), which is more than the platform
  refuses, so it is used at concrete links only and never in a statement about all
  strings.
\<close>

definition to_lower :: "char \<Rightarrow> char" where
  "to_lower c =
     (case map_of (zip ''ABCDEFGHIJKLMNOPQRSTUVWXYZ'' ''abcdefghijklmnopqrstuvwxyz'') c of
        None \<Rightarrow> c
      | Some l \<Rightarrow> l)"

definition is_letter :: "char \<Rightarrow> bool" where
  "is_letter c = (to_lower c \<in> set ''abcdefghijklmnopqrstuvwxyz'')"

definition is_digit :: "char \<Rightarrow> bool" where
  "is_digit c = (c \<in> set ''0123456789'')"

definition host_label_ok :: "string \<Rightarrow> bool" where
  "host_label_ok l =
     (l \<noteq> [] \<and> list_all (\<lambda>c. is_letter c \<or> is_digit c \<or> c = CHR ''-'') l \<and>
      \<not> startsWith (map to_lower l) ''xn--'')"

definition host_ok :: "string \<Rightarrow> bool" where
  "host_ok h =
     (let ls = split h ''.'' in
        list_all host_label_ok ls \<and>
        (case last ls of [] \<Rightarrow> False | c # cs \<Rightarrow> is_letter c))"

definition path_ok :: "string \<Rightarrow> bool" where
  "path_ok p =
     (list_all (\<lambda>c. is_letter c \<or> is_digit c \<or> c \<in> set ''-._~/'') p \<and>
      (case p of [] \<Rightarrow> True | c # cs \<Rightarrow> c = CHR ''/'') \<and>
      list_all (\<lambda>seg. seg \<noteq> ''.'' \<and> seg \<noteq> ''..'') (split p ''/''))"

definition after_scheme :: "string \<Rightarrow> string option" where
  "after_scheme s =
     (if map to_lower (take 8 s) = ''https://'' then Some (drop 8 s)
      else if map to_lower (take 7 s) = ''http://'' then Some (drop 7 s)
      else None)"

definition URL_http :: url_parser where
  "URL_http s =
     (case after_scheme s of
        None \<Rightarrow> None
      | Some rest \<Rightarrow>
          (let host = takeWhile (\<lambda>c. c \<notin> set ''/?#'') rest;
               tail = dropWhile (\<lambda>c. c \<notin> set ''/?#'') rest;
               path = takeWhile (\<lambda>c. c \<notin> set ''?#'') tail
           in if host_ok host \<and> path_ok path
              then Some \<lparr>hostname = map to_lower host,
                         pathname = (if path = [] then ''/'' else path)\<rparr>
              else None))"

section \<open>utils/validation.ts\<close>

text \<open>The body of the \<^verbatim>\<open>try\<close> block of \<^verbatim>\<open>validateClaudeURL\<close>.\<close>

definition validateClaudeURL_try :: "url_parser \<Rightarrow> string \<Rightarrow> exn + bool" where
  "validateClaudeURL_try newURL url =
     (case newURL url of
        None \<Rightarrow> Inl (TypeError ''Invalid URL'')
      | Some urlObj \<Rightarrow>
          if \<not> str_includes (hostname urlObj) ''claude.ai'' then Inr False
          else if \<not> startsWith (pathname urlObj) ''/share/'' then Inr False
          else
            (case at_index (split (pathname urlObj) ''/share/'') 1 of
               None \<Rightarrow> Inr False
             | Some shareId \<Rightarrow>
                 if shareId = [] \<or> \<not> uuidRegex_test shareId then Inr False
                 else Inr True))"

definition validateClaudeURL :: "url_parser \<Rightarrow> string \<Rightarrow> exn + bool" where
  "validateClaudeURL newURL url =
     (if url = [] then Inr False
      else
        (case validateClaudeURL_try newURL url of
           Inl error \<Rightarrow> Inr False
         | Inr b \<Rightarrow> Inr b))"

definition extractShareId :: "url_parser \<Rightarrow> string \<Rightarrow> exn + string option" where
  "extractShareId newURL url =
     (case validateClaudeURL newURL url of
        Inl e \<Rightarrow> Inl e
      | Inr valid \<Rightarrow>
          if \<not> valid then Inr None
          else
            (case newURL url of
               None \<Rightarrow> Inr None
             | Some urlObj \<Rightarrow> Inr (at_index (split (pathname urlObj) ''/share/'') 1)))"


section \<open>utils/pdfUtils.ts: the content normalizer\<close>

subsection \<open>The pattern of the content region\<close>

text \<open>
  \<^verbatim>\<open>html.match(/<main[^>]*>([\s\S]*?)<\/main>/i)\<close>. The flag \<open>i\<close> compares letters
  without regard to case. \<open>istartsWith s p\<close> reads the literal \<open>p\<close> at the start
  of \<open>s\<close>.
\<close>

fun istartsWith :: "string \<Rightarrow> string \<Rightarrow> bool" where
  "istartsWith s [] = True"
| "istartsWith [] (p # ps) = False"
| "istartsWith (c # cs) (p # ps) = (to_lower c = to_lower p \<and> istartsWith cs ps)"

text \<open>
  \<^verbatim>\<open>([\s\S]*?)<\/main>\<close>: the lazy group takes as few characters as possible, so it
  ends at the first closing tag. \<open>acc\<close> is the text captured so far.
\<close>

fun lazy_until_close :: "string \<Rightarrow> string \<Rightarrow> string option" where
  "lazy_until_close acc [] = None"
| "lazy_until_close acc (c # cs) =
     (if istartsWith (c # cs) ''</main>'' then Some acc
      else lazy_until_close (acc @ [c]) cs)"

text \<open>
  The pattern tried at the start of \<open>s\<close>; the result is group 1. \<^verbatim>\<open>[^>]*\<close> is
  followed by \<^verbatim>\<open>>\<close>, so it ends at the first \<^verbatim>\<open>>\<close> whatever it gives back.
\<close>

definition match_main_at :: "string \<Rightarrow> string option" where
  "match_main_at s =
     (if istartsWith s ''<main'' then
        (case dropWhile (\<lambda>c. c \<noteq> CHR ''>'') (drop 5 s) of
           [] \<Rightarrow> None
         | gt # body \<Rightarrow> lazy_until_close [] body)
      else None)"

text \<open>
  The leftmost match: the pattern is tried at every position from the left. The result
  is group 1 of the match, \<open>None\<close> when \<^verbatim>\<open>match\<close> returns \<^verbatim>\<open>null\<close>.
\<close>

fun match_main :: "string \<Rightarrow> string option" where
  "match_main [] = None"
| "match_main (c # cs) =
     (case match_main_at (c # cs) of
        Some g \<Rightarrow> Some g
      | None \<Rightarrow> match_main cs)"

subsection \<open>The two document shells\<close>

text \<open>
  The template literals of \<^verbatim>\<open>processHtml\<close>, line by line as in the source, cut at the
  style rules and at the interpolated content. \<open>join_nl\<close> puts a line break between
  the lines.
\<close>

fun join_nl :: "string list \<Rightarrow> string" where
  "join_nl [] = []"
| "join_nl [l] = l"
| "join_nl (l # ls) = l @ CHR 0x0A # join_nl ls"

definition main_pre :: string where
  "main_pre = join_nl
     ['''',
      ''      <!DOCTYPE html>'',
      ''      <html>'',
      ''      <head>'',
      ''        <meta charset=\"UTF-8\">'',
      ''        <style>'',
      '''']"

definition main_style :: string where
  "main_style = join_nl
     [''          body { '',
      ''            font-family: Arial, sans-serif; '',
      ''            margin: 20px;'',
      ''            background: white;'',
      ''            color: black;'',
      ''            padding: 20px;'',
      ''          }'',
      ''          .message { '',
      ''            margin-bottom: 20px; '',
      ''            padding: 15px; '',
      ''            border-radius: 8px;'',
      ''          }'',
      ''          .human-message, div[data-message-author-role=\"user\"] {'',
      ''            background-color: #f0f0f0;'',
      ''            margin: 15px 0;'',
      ''            border-left: 4px solid #888;'',
      ''          }'',
      ''          .ai-message, div[data-message-author-role=\"assistant\"] {'',
      ''            background-color: #e6f7ff;'',
      ''            margin: 15px 0;'',
      ''            border-left: 4px solid #0066cc;'',
      ''          }'',
      ''          .message-header {'',
      ''            font-weight: bold;'',
      ''            margin-bottom: 10px;'',
      ''          }'',
      ''          img, svg {'',
      ''            max-width: 100%;'',
      ''          }'',
      ''          pre {'',
      ''            background-color: #f5f5f5;'',
      ''            padding: 10px;'',
      ''            border-radius: 4px;'',
      ''            overflow-x: auto;'',
      ''            font-size: 14px;'',
      ''          }'',
      ''          code {'',
      ''            font-family: monospace;'',
      ''          }'',
      ''          h1, h2, h3 {'',
      ''            color: #333;'',
      ''          }'']"

definition main_post :: string where
  "main_post = join_nl
     ['''',
      ''        </style>'',
      ''      </head>'',
      ''      <body>'',
      ''        <div class=\"conversation-container\">'',
      ''          '']"

definition main_tail :: string where
  "main_tail = join_nl
     ['''',
      ''        </div>'',
      ''      </body>'',
      ''      </html>'',
      ''    '']"

definition fallback_pre :: string where
  "fallback_pre = join_nl
     ['''',
      ''    <!DOCTYPE html>'',
      ''    <html>'',
      ''    <head>'',
      ''      <meta charset=\"UTF-8\">'',
      ''      <style>'',
      '''']"

definition fallback_style :: string where
  "fallback_style = join_nl
     [''        body { '',
      ''          font-family: Arial, sans-serif; '',
      ''          margin: 20px;'',
      ''          background: white;'',
      ''          color: black;'',
      ''        }'',
      ''        div[data-message-author-role=\"user\"] {'',
      ''          background-color: #f0f0f0;'',
      ''          padding: 15px;'',
      ''          margin: 15px 0;'',
      ''          border-left: 4px solid #888;'',
      ''        }'',
      ''        div[data-message-author-role=\"assistant\"] {'',
      ''          background-color: #e6f7ff;'',
      ''          padding: 15px;'',
      ''          margin: 15px 0;'',
      ''          border-left: 4px solid #0066cc;'',
      ''        }'']"

definition fallback_post :: string where
  "fallback_post = join_nl
     ['''',
      ''      </style>'',
      ''    </head>'',
      ''    <body>'',
      ''      '']"

definition fallback_tail :: string where
  "fallback_tail = join_nl
     ['''',
      ''    </body>'',
      ''    </html>'',
      ''  '']"

definition main_shell :: "string \<Rightarrow> string" where
  "main_shell content = main_pre @ main_style @ main_post @ content @ main_tail"

definition fallback_shell :: "string \<Rightarrow> string" where
  "fallback_shell html = fallback_pre @ fallback_style @ fallback_post @ html @ fallback_tail"

subsection \<open>processHtml\<close>

definition processHtml :: "string \<Rightarrow> string" where
  "processHtml html =
     (case match_main html of
        Some inner \<Rightarrow> if inner \<noteq> [] then main_shell inner else fallback_shell html
      | None \<Rightarrow> fallback_shell html)"

text \<open>
  The frame of a document: the given tags occur in the given order, one after the
  other. \<open>after_first t s\<close> is what follows the leftmost occurrence of \<open>t\<close> in \<open>s\<close>.
\<close>

fun after_first :: "string \<Rightarrow> string \<Rightarrow> string option" where
  "after_first t [] = (if t = [] then Some [] else None)"
| "after_first t (c # cs) =
     (if startsWith (c # cs) t then Some (drop (length t) (c # cs)) else after_first t cs)"

fun tags_in_order :: "string list \<Rightarrow> string \<Rightarrow> bool" where
  "tags_in_order [] s = True"
| "tags_in_order (t # ts) s =
     (case after_first t s of None \<Rightarrow> False | Some rest \<Rightarrow> tags_in_order ts rest)"

section \<open>utils/pdfUtils.ts: the conversion pipeline\<close>

subsection \<open>The browser and the libraries as an environment\<close>

text \<open>
  The pipeline talks to the network, to the DOM, to \<^verbatim>\<open>html2canvas\<close> and to \<^verbatim>\<open>jsPDF\<close>.
  What they answer is not decided by the repository, so it is a parameter \<open>env\<close> of
  the model; what the pipeline does to them is recorded in a state \<open>world\<close>. Waiting
  (\<^verbatim>\<open>await\<close>, \<^verbatim>\<open>setTimeout\<close>) only orders the steps; durations are not modelled.
\<close>

record request =
  req_url :: string
  req_headers :: "(string \<times> string) list"

text \<open>
  A response: \<^verbatim>\<open>response.ok\<close>, \<^verbatim>\<open>response.status\<close>, \<^verbatim>\<open>response.statusText\<close>, and what
  \<^verbatim>\<open>await response.text()\<close> gives, which can be a rejection.
\<close>

record response =
  ok :: bool
  status :: nat
  statusText :: string
  text_result :: "exn + string"

datatype fetch_outcome = Rejected exn | Responded response

text \<open>A canvas as the pipeline reads it: \<^verbatim>\<open>canvas.width\<close> and \<^verbatim>\<open>canvas.height\<close>.\<close>

record canvas =
  width :: nat
  height :: nat

text \<open>
  How the load of the iframe ends. \<open>Loaded\<close>: \<^verbatim>\<open>onload\<close> fires before the timer.
  \<open>TimedOut\<close>: the timer fires first. \<open>NoContentWindow\<close>: \<^verbatim>\<open>iframe.contentWindow\<close>
  is null. \<open>AppendThrows\<close>: creating or appending the element throws.
  \<open>WriteThrows\<close>: writing the document throws.
\<close>

datatype iframe_outcome =
    Loaded
  | TimedOut
  | NoContentWindow
  | AppendThrows exn
  | WriteThrows exn

text \<open>
  \<open>fetch_result\<close> answers the last request of a history of requests, so an answer may
  depend on everything requested before. \<open>has_element\<close> tells whether the loaded
  document has a body or a \<^verbatim>\<open>.conversation-container\<close>. \<open>addImage_error\<close> is the
  exception with which \<^verbatim>\<open>jsPDF\<close> refuses the image of a canvas, if it refuses it.
\<close>

record env =
  fetch_result :: "request list \<Rightarrow> fetch_outcome"
  iframe_load :: "string \<Rightarrow> iframe_outcome"
  has_element :: "string \<Rightarrow> bool"
  html2canvas :: "string \<Rightarrow> exn + canvas"
  toDataURL :: "canvas \<Rightarrow> exn + string"
  addImage_error :: "string \<Rightarrow> canvas \<Rightarrow> exn option"

subsection \<open>jsPDF documents\<close>

text \<open>
  A JavaScript number is finite, an infinity or \<^verbatim>\<open>NaN\<close>. The finite numbers are taken
  as exact rationals. The pipeline divides, subtracts a finite number and compares with
  zero; these three operations are given as the language has them.
\<close>

datatype number = Fin rat | PosInfinity | NegInfinity | NaN

text \<open>\<^verbatim>\<open>a / b\<close> for finite \<open>a\<close> and \<open>b\<close>.\<close>

definition divide_number :: "rat \<Rightarrow> rat \<Rightarrow> number" where
  "divide_number a b =
     (if b \<noteq> 0 then Fin (a / b)
      else if 0 < a then PosInfinity
      else if a < 0 then NegInfinity
      else NaN)"

text \<open>\<^verbatim>\<open>x - r\<close> for a finite \<open>r\<close>.\<close>

definition minus_number :: "number \<Rightarrow> rat \<Rightarrow> number" where
  "minus_number x r =
     (case x of
        Fin a \<Rightarrow> Fin (a - r)
      | PosInfinity \<Rightarrow> PosInfinity
      | NegInfinity \<Rightarrow> NegInfinity
      | NaN \<Rightarrow> NaN)"

text \<open>\<^verbatim>\<open>x > 0\<close>.\<close>

definition greater_zero :: "number \<Rightarrow> bool" where
  "greater_zero x =
     (case x of
        Fin a \<Rightarrow> 0 < a
      | PosInfinity \<Rightarrow> True
      | NegInfinity \<Rightarrow> False
      | NaN \<Rightarrow> False)"

text \<open>
  A document is its pages, each page the drawing operations made on it, in order. An
  image is drawn with its data, its position, its width and its height; a text with the
  font size in force, its position and whether it is centred. Lengths are in the unit of
  the document. The height of an image is the only length that the pipeline computes by
  a division.
\<close>

datatype draw =
    Image string rat rat rat number
  | Text nat string rat rat bool

record pdf =
  pages :: "draw list list"
  fontSize :: nat

text \<open>\<^verbatim>\<open>new jsPDF(...)\<close>: one empty page, font size 16.\<close>

definition new_jsPDF :: pdf where
  "new_jsPDF = \<lparr>pages = [[]], fontSize = 16\<rparr>"

text \<open>Drawing goes to the current page, which is the page added last.\<close>

definition draw_on_current :: "draw \<Rightarrow> pdf \<Rightarrow> pdf" where
  "draw_on_current d p = p\<lparr>pages := butlast (pages p) @ [last (pages p) @ [d]]\<rparr>"

definition addImage :: "string \<Rightarrow> rat \<Rightarrow> rat \<Rightarrow> rat \<Rightarrow> number \<Rightarrow> pdf \<Rightarrow> pdf" where
  "addImage imageData x y w h p = draw_on_current (Image imageData x y w h) p"

definition addPage :: "pdf \<Rightarrow> pdf" where
  "addPage p = p\<lparr>pages := pages p @ [[]]\<rparr>"

definition setFontSize :: "nat \<Rightarrow> pdf \<Rightarrow> pdf" where
  "setFontSize n p = p\<lparr>fontSize := n\<rparr>"

definition text_at :: "string \<Rightarrow> rat \<Rightarrow> rat \<Rightarrow> pdf \<Rightarrow> pdf" where
  "text_at s x y p = draw_on_current (Text (fontSize p) s x y False) p"

definition text_centered :: "string \<Rightarrow> rat \<Rightarrow> rat \<Rightarrow> pdf \<Rightarrow> pdf" where
  "text_centered s x y p = draw_on_current (Text (fontSize p) s x y True) p"

subsection \<open>The state\<close>

datatype log_entry = Warn string exn | Err string exn

text \<open>
  \<open>requests\<close>: the calls of \<^verbatim>\<open>fetch\<close>, in order. \<open>body_children\<close>: the iframes
  attached to \<^verbatim>\<open>document.body\<close>; an iframe is named by its creation number.
  \<open>timers\<close>: the iframes whose load timer is pending. \<open>downloads\<close>: the calls of
  \<^verbatim>\<open>pdf.save\<close>, file name and document. \<open>console\<close>: what was logged.
\<close>

record world =
  requests :: "request list"
  iframes_created :: nat
  body_children :: "nat list"
  timers :: "nat list"
  downloads :: "(string \<times> pdf) list"
  console :: "log_entry list"

definition log :: "log_entry \<Rightarrow> world \<Rightarrow> world" where
  "log e w = w\<lparr>console := console w @ [e]\<rparr>"

definition save :: "pdf \<Rightarrow> string \<Rightarrow> world \<Rightarrow> world" where
  "save p filename w = w\<lparr>downloads := downloads w @ [(filename, p)]\<rparr>"

definition fetch :: "env \<Rightarrow> request \<Rightarrow> world \<Rightarrow> fetch_outcome \<times> world" where
  "fetch e req w =
     (let w' = w\<lparr>requests := requests w @ [req]\<rparr>
      in (fetch_result e (requests w'), w'))"

text \<open>
  \<^verbatim>\<open>document.body.removeChild(iframe)\<close> throws when the iframe is not a child of the
  body.
\<close>

definition removeChild :: "nat \<Rightarrow> world \<Rightarrow> exn + world" where
  "removeChild iframe w =
     (if iframe \<in> set (body_children w)
      then Inr (w\<lparr>body_children := removeAll iframe (body_children w)\<rparr>)
      else Inl (NotFoundError ''The node to be removed is not a child of this node.''))"

subsection \<open>Numbers in template literals\<close>

function show_nat :: "nat \<Rightarrow> string" where
  "show_nat n =
     (if n < 10 then [''0123456789'' ! n]
      else show_nat (n div 10) @ [''0123456789'' ! (n mod 10)])"
  by pat_completeness auto
termination
  by (relation "measure id") auto

subsection \<open>fetchClaudeContent\<close>

definition corsProxies :: "string list" where
  "corsProxies =
     [''https://corsproxy.io/?'',
      ''https://cors-anywhere.herokuapp.com/'',
      ''https://api.allorigins.win/raw?url='']"

definition proxy_request :: "string \<Rightarrow> string \<Rightarrow> request" where
  "proxy_request shareId proxy =
     \<lparr>req_url = proxy @ ''https://claude.ai/share/'' @ shareId, req_headers = []\<rparr>"

definition direct_request :: "string \<Rightarrow> request" where
  "direct_request shareId =
     \<lparr>req_url = ''https://claude.ai/share/'' @ shareId,
      req_headers =
        [(''Accept'', ''text/html''),
         (''User-Agent'', ''Mozilla/5.0 (Windows NT 10.0; Win64; x64) AppleWebKit/537.36'')]\<rparr>"

text \<open>
  The loop over the proxies. The result \<open>Some html\<close> is \<^verbatim>\<open>success = true\<close> with the
  body read; \<open>None\<close> is \<^verbatim>\<open>success = false\<close> after the last proxy. A rejection of
  \<^verbatim>\<open>fetch\<close> or of \<^verbatim>\<open>response.text()\<close> is caught and logged, and the loop goes on; a
  response that is not ok is skipped.
\<close>

fun try_proxies :: "env \<Rightarrow> string \<Rightarrow> string list \<Rightarrow> world \<Rightarrow> string option \<times> world" where
  "try_proxies e shareId [] w = (None, w)"
| "try_proxies e shareId (proxy # rest) w =
     (case fetch e (proxy_request shareId proxy) w of
        (Rejected err, w') \<Rightarrow>
          try_proxies e shareId rest (log (Warn (''Proxy '' @ proxy @ '' failed:'') err) w')
      | (Responded r, w') \<Rightarrow>
          if ok r then
            (case text_result r of
               Inl err \<Rightarrow>
                 try_proxies e shareId rest
                   (log (Warn (''Proxy '' @ proxy @ '' failed:'') err) w')
             | Inr html \<Rightarrow> (Some html, w'))
          else try_proxies e shareId rest w')"

text \<open>The body of the outer \<^verbatim>\<open>try\<close> block.\<close>

definition fetchClaudeContent_try :: "env \<Rightarrow> string \<Rightarrow> world \<Rightarrow> (exn + string) \<times> world" where
  "fetchClaudeContent_try e shareId w =
     (case try_proxies e shareId corsProxies w of
        (Some html, w1) \<Rightarrow> (Inr html, w1)
      | (None, w1) \<Rightarrow>
          (case fetch e (direct_request shareId) w1 of
             (Rejected err, w2) \<Rightarrow> (Inl err, w2)
           | (Responded r, w2) \<Rightarrow>
               if \<not> ok r then
                 (Inl (Error (''Failed to fetch content: '' @ show_nat (status r) @ '' ''
                              @ statusText r)), w2)
               else (text_result r, w2)))"

definition fetch_failed_message :: string where
  "fetch_failed_message =
     ''Failed to fetch Claude conversation. Please make sure the share link is public and valid.''"

definition fetchClaudeContent :: "env \<Rightarrow> string \<Rightarrow> world \<Rightarrow> (exn + string) \<times> world" where
  "fetchClaudeContent e shareId w =
     (case fetchClaudeContent_try e shareId w of
        (Inl error, w') \<Rightarrow>
          (Inl (Error fetch_failed_message),
           log (Err ''Error fetching Claude content:'' error) w')
      | (Inr html, w') \<Rightarrow> (Inr html, w'))"

text \<open>
  What the loop and the last request read of an answer: the body, when the request
  resolved with an ok response whose body could be read.
\<close>

definition success_body :: "fetch_outcome \<Rightarrow> string option" where
  "success_body out =
     (case out of
        Rejected err \<Rightarrow> None
      | Responded r \<Rightarrow>
          if ok r then (case text_result r of Inl err \<Rightarrow> None | Inr html \<Rightarrow> Some html)
          else None)"

text \<open>The answer to proxy number \<open>j\<close> of the list, asked after the proxies before it.\<close>

definition proxy_answer :: "env \<Rightarrow> string \<Rightarrow> string list \<Rightarrow> world \<Rightarrow> nat \<Rightarrow> string option" where
  "proxy_answer e shareId ps w j =
     success_body (fetch_result e (requests w @ map (proxy_request shareId) (take (Suc j) ps)))"

subsection \<open>createTemporaryIframe\<close>

text \<open>
  The iframe is appended to the body and the load timer is started. \<^verbatim>\<open>onload\<close> clears
  the timer and resolves with the iframe. The timer, when it fires, rejects and removes
  the iframe. Without a content window the promise is rejected at once; an exception
  while writing is caught and rejects the promise too. In these two cases the iframe
  stays attached and the timer stays pending. An exception while the element is created
  or appended rejects the promise before anything is attached.
\<close>

definition createTemporaryIframe :: "env \<Rightarrow> string \<Rightarrow> world \<Rightarrow> (exn + nat) \<times> world" where
  "createTemporaryIframe e htmlContent w =
     (let iframe = iframes_created w;
          w1 = w\<lparr>iframes_created := iframe + 1,
                  body_children := body_children w @ [iframe],
                  timers := timers w @ [iframe]\<rparr>
      in case iframe_load e htmlContent of
           AppendThrows err \<Rightarrow> (Inl err, w)
         | Loaded \<Rightarrow> (Inr iframe, w1\<lparr>timers := removeAll iframe (timers w1)\<rparr>)
         | TimedOut \<Rightarrow>
             (Inl (Error ''Iframe loading timed out''),
              w1\<lparr>timers := removeAll iframe (timers w1),
                  body_children := removeAll iframe (body_children w1)\<rparr>)
         | NoContentWindow \<Rightarrow>
             (Inl (Error ''Could not access iframe content window''), w1)
         | WriteThrows err \<Rightarrow> (Inl err, w1))"

subsection \<open>Pagination\<close>

definition imgWidth :: rat where
  "imgWidth = 210"

definition pageHeight :: rat where
  "pageHeight = 297"

text \<open>\<^verbatim>\<open>(canvas.height * imgWidth) / canvas.width\<close>\<close>

definition imgHeight_of :: "canvas \<Rightarrow> number" where
  "imgHeight_of c = divide_number (of_nat (height c) * imgWidth) (of_nat (width c))"

text \<open>
  The loop \<^verbatim>\<open>while (heightLeft > 0)\<close>: a new page with the whole image drawn at
  \<^verbatim>\<open>-pageHeight * pageCount\<close>. The loop need not end, so the function is partial:
  \<open>None\<close> is a loop that runs forever.
\<close>

partial_function (option) add_pages ::
    "string \<Rightarrow> number \<Rightarrow> number \<Rightarrow> nat \<Rightarrow> pdf \<Rightarrow> pdf option" where
  "add_pages imageData imgHeight heightLeft pageCount p =
     (if greater_zero heightLeft then
        add_pages imageData imgHeight (minus_number heightLeft pageHeight) (pageCount + 1)
          (addImage imageData 0 (- pageHeight * of_nat pageCount) imgWidth imgHeight
             (addPage p))
      else Some p)"

declare add_pages.simps [code]

text \<open>
  From the computation of the image height to the end of the loop. The first page is
  the page the new document starts with.
\<close>

definition paginate :: "string \<Rightarrow> canvas \<Rightarrow> pdf option" where
  "paginate imageData c =
     (let imgHeight = imgHeight_of c;
          p = addImage imageData 0 0 imgWidth imgHeight new_jsPDF
      in add_pages imageData imgHeight (minus_number imgHeight pageHeight) 1 p)"

subsection \<open>fallbackPdfGeneration\<close>

definition download_name :: "string \<Rightarrow> string" where
  "download_name shareId = ''claude-conversation-'' @ shareId @ ''.pdf''"

definition invalid_link_error :: exn where
  "invalid_link_error = Error ''Invalid Claude share URL''"

definition fallback_pdf :: "string \<Rightarrow> pdf" where
  "fallback_pdf shareId =
     (let p = new_jsPDF;
          p = setFontSize 16 p;
          p = text_centered ''Claude Conversation'' 105 20 p;
          p = setFontSize 12 p;
          p = text_at (''Share URL: https://claude.ai/share/'' @ shareId) 20 40 p;
          p = setFontSize 12 p;
          p = text_at ''The automatic PDF generation encountered technical difficulties.''
                20 60 p;
          p = text_at
                ''To save this conversation as PDF, please try one of these alternatives:''
                20 70 p;
          p = text_at
                (''1. Open the share URL in your browser and use the browser'' @ [CHR 0x27]
                 @ ''s print function'') 20 85 p;
          p = text_at ''   (Select \"Save as PDF\" as the printer)'' 20 95 p;
          p = text_at ''2. Try again later when the service might be more stable'' 20 110 p;
          p = text_at ''3. Take screenshots of the conversation'' 20 125 p
      in p)"

definition fallbackPdfGeneration ::
    "url_parser \<Rightarrow> string \<Rightarrow> world \<Rightarrow> (exn + unit) \<times> world" where
  "fallbackPdfGeneration newURL url w =
     (case extractShareId newURL url of
        Inl err \<Rightarrow> (Inl err, w)
      | Inr None \<Rightarrow> (Inl invalid_link_error, w)
      | Inr (Some shareId) \<Rightarrow>
          if shareId = [] then (Inl invalid_link_error, w)
          else (Inr (), save (fallback_pdf shareId) (download_name shareId) w))"

subsection \<open>convertClaudeToPdf\<close>

text \<open>
  The first component of the result is how the promise settles: \<open>Some (Inr ())\<close>
  resolved, \<open>Some (Inl err)\<close> rejected, \<open>None\<close> never settled. The second is the
  state reached.

  The body of the \<^verbatim>\<open>try\<close> block. Every page draws the same image, so whether
  \<^verbatim>\<open>addImage\<close> refuses it is asked once, where the first page is drawn.
\<close>

definition convertClaudeToPdf_try ::
    "url_parser \<Rightarrow> env \<Rightarrow> string \<Rightarrow> world \<Rightarrow> (exn + unit) option \<times> world" where
  "convertClaudeToPdf_try newURL e url w =
     (case extractShareId newURL url of
        Inl err \<Rightarrow> (Some (Inl err), w)
      | Inr None \<Rightarrow> (Some (Inl invalid_link_error), w)
      | Inr (Some shareId) \<Rightarrow>
          if shareId = [] then (Some (Inl invalid_link_error), w)
          else
            (case fetchClaudeContent e shareId w of
               (Inl err, w1) \<Rightarrow> (Some (Inl err), w1)
             | (Inr htmlContent, w1) \<Rightarrow>
                 (let processedHtml = processHtml htmlContent
                  in case createTemporaryIframe e processedHtml w1 of
                       (Inl err, w2) \<Rightarrow> (Some (Inl err), w2)
                     | (Inr iframe, w2) \<Rightarrow>
                         if \<not> has_element e processedHtml
                         then (Some (Inl (Error ''Could not find content to convert'')), w2)
                         else
                           (case html2canvas e processedHtml of
                              Inl err \<Rightarrow> (Some (Inl err), w2)
                            | Inr c \<Rightarrow>
                                (case toDataURL e c of
                                   Inl err \<Rightarrow> (Some (Inl err), w2)
                                 | Inr imageData \<Rightarrow>
                                     (case addImage_error e imageData c of
                                        Some err \<Rightarrow> (Some (Inl err), w2)
                                      | None \<Rightarrow>
                                          (case paginate imageData c of
                                             None \<Rightarrow> (None, w2)
                                           | Some doc \<Rightarrow>
                                               (let w3 = save doc (download_name shareId) w2
                                                in case removeChild iframe w3 of
                                                     Inl err \<Rightarrow> (Some (Inl err), w3)
                                                   | Inr w4 \<Rightarrow> (Some (Inr ()), w4)))))))))"

definition generation_failed_error :: exn where
  "generation_failed_error =
     Error ''Failed to generate PDF. Please try again or use browser print function.''"

definition convertClaudeToPdf ::
    "url_parser \<Rightarrow> env \<Rightarrow> string \<Rightarrow> world \<Rightarrow> (exn + unit) option \<times> world" where
  "convertClaudeToPdf newURL e url w =
     (case convertClaudeToPdf_try newURL e url w of
        (None, w') \<Rightarrow> (None, w')
      | (Some (Inr u), w') \<Rightarrow> (Some (Inr u), w')
      | (Some (Inl error), w') \<Rightarrow>
          (case fallbackPdfGeneration newURL url
                  (log (Err ''Error converting to PDF:'' error) w') of
             (Inr u, w'') \<Rightarrow> (Some (Inr u), w'')
           | (Inl fallbackError, w'') \<Rightarrow>
               (Some (Inl generation_failed_error),
                log (Err ''Fallback PDF generation also failed:'' fallbackError) w'')))"

subsection \<open>Example environments\<close>

definition world0 :: world where
  "world0 = \<lparr>requests = [], iframes_created = 0, body_children = [], timers = [],
             downloads = [], console = []\<rparr>"

definition a4_canvas :: canvas where
  "a4_canvas = \<lparr>width = 1500, height = 7213\<rparr>"

text \<open>Every request is rejected; the rest would work.\<close>

definition env_offline :: env where
  "env_offline =
     \<lparr>fetch_result = (\<lambda>history. Rejected (TypeError ''Failed to fetch'')),
      iframe_load = (\<lambda>html. Loaded),
      has_element = (\<lambda>html. True),
      html2canvas = (\<lambda>html. Inr a4_canvas),
      toDataURL = (\<lambda>c. Inr ''data:image/jpeg;base64,AAAA''),
      addImage_error = (\<lambda>imageData c. None)\<rparr>"

text \<open>The first proxy is unreachable, the second one answers with a page.\<close>

definition env_online :: env where
  "env_online =
     env_offline\<lparr>fetch_result :=
       (\<lambda>history.
          if length history = 2
          then Responded \<lparr>ok = True, status = 200, statusText = ''OK'',
                          text_result = Inr ''<html><main><p>Hello</p></main></html>''\<rparr>
          else Rejected (TypeError ''Failed to fetch''))\<rparr>"

text \<open>As \<open>env_online\<close>, but \<^verbatim>\<open>html2canvas\<close> rejects.\<close>

definition env_render_fails :: env where
  "env_render_fails =
     env_online\<lparr>html2canvas := (\<lambda>html. Inl (Error ''Unable to render element''))\<rparr>"


definition sample_id :: string where
  "sample_id = ''3fa85f64-5717-4562-b3fc-2c963f66afa6''"

definition sample_link :: string where
  "sample_link = ''https://claude.ai/share/3fa85f64-5717-4562-b3fc-2c963f66afa6''"

section \<open>Properties of the link validator\<close>

subsection \<open>The pattern and the token shape\<close>

lemma match_Hex:
  "match_atoms (Hex n # as) s =
     (n \<le> length s \<and> (\<forall>i<n. is_hex_i (s ! i)) \<and> match_atoms as (drop n s))"
  by (auto simp: list_all_length)

lemma match_Lit:
  "match_atoms (Lit c # as) s = (s \<noteq> [] \<and> s ! 0 = c \<and> match_atoms as (drop 1 s))"
  by (cases s) auto

lemma regex_groups: "uuidRegex_test s = token_groups s"
  unfolding uuidRegex_test_def uuidRegex_def token_groups_def
  by (simp add: match_Hex match_Lit del: match_atoms.simps(2,3,4)) (auto simp: add.commute)

lemma shift_range: "(\<forall>k<n. P (m + k)) \<Longrightarrow> m \<le> i \<Longrightarrow> i < m + n \<Longrightarrow> P (i::nat)"
proof -
  assume a: "\<forall>k<n. P (m + k)" and b: "m \<le> i" and c: "i < m + n"
  from b c have "i - m < n" by simp
  with a have "P (m + (i - m))" by blast
  with b show "P i" by simp
qed

lemma dash_at: "token_groups s \<Longrightarrow> i \<in> {8, 13, 18, 23} \<Longrightarrow> s ! i = CHR ''-''"
  unfolding token_groups_def by blast

lemma hex_at:
  assumes g: "token_groups s" and i: "i < 36" "i \<notin> {8, 13, 18, 23}"
  shows "is_hex_i (s ! i)"
proof -
  from i have "i < 8 \<or> (9 \<le> i \<and> i < 9 + 4) \<or> (14 \<le> i \<and> i < 14 + 4)
      \<or> (19 \<le> i \<and> i < 19 + 4) \<or> (24 \<le> i \<and> i < 24 + 12)"
    by simp arith
  moreover from g have "\<forall>k<8. is_hex_i (s ! k)" "\<forall>k<4. is_hex_i (s ! (9 + k))"
    "\<forall>k<4. is_hex_i (s ! (14 + k))" "\<forall>k<4. is_hex_i (s ! (19 + k))"
    "\<forall>k<12. is_hex_i (s ! (24 + k))"
    unfolding token_groups_def by blast+
  ultimately show ?thesis
    using shift_range[where P="\<lambda>j. is_hex_i (s ! j)"] by blast
qed

lemma groups_shape: "token_groups s = token_shape s"
proof
  assume g: "token_groups s"
  then have "length s = 36" by (simp add: token_groups_def)
  moreover have "\<forall>i<36. if i \<in> {8, 13, 18, 23} then s ! i = CHR ''-'' else is_hex_i (s ! i)"
    using dash_at[OF g] hex_at[OF g] by presburger
  ultimately show "token_shape s" unfolding token_shape_def by (rule conjI)
next
  assume t: "token_shape s"
  then have a: "\<And>i. i < 36 \<Longrightarrow> i \<notin> {8, 13, 18, 23} \<Longrightarrow> is_hex_i (s ! i)"
    and b: "\<And>i. i \<in> {8, 13, 18, 23} \<Longrightarrow> s ! i = CHR ''-''"
    and l: "length s = 36"
    by (auto simp: token_shape_def)
  have h: "is_hex_i (s ! (m + i))" if "m + i < 36" "m + i \<notin> {8, 13, 18, 23}" for m i
    using that by (rule a)
  show "token_groups s"
    unfolding token_groups_def
  proof (intro conjI allI impI)
    show "length s = 36" by (rule l)
    show "is_hex_i (s ! i)" if "i < 8" for i using that by (intro a) auto
    show "is_hex_i (s ! (9 + i))" if "i < 4" for i using that by (intro h) auto
    show "is_hex_i (s ! (14 + i))" if "i < 4" for i using that by (intro h) auto
    show "is_hex_i (s ! (19 + i))" if "i < 4" for i using that by (intro h) auto
    show "is_hex_i (s ! (24 + i))" if "i < 12" for i using that by (intro h) auto
    show "s ! 8 = CHR ''-''" by (intro b) simp
    show "s ! 13 = CHR ''-''" by (intro b) simp
    show "s ! 18 = CHR ''-''" by (intro b) simp
    show "s ! 23 = CHR ''-''" by (intro b) simp
  qed
qed

lemma regex_shape: "uuidRegex_test s = token_shape s"
  by (simp add: regex_groups groups_shape)

subsection \<open>What a valid link is\<close>

lemma validate_True_iff:
  "validateClaudeURL newURL s = Inr True \<longleftrightarrow>
     s \<noteq> [] \<and>
     (\<exists>u t. newURL s = Some u \<and> str_includes (hostname u) ''claude.ai'' \<and>
        startsWith (pathname u) ''/share/'' \<and>
        at_index (split (pathname u) ''/share/'') 1 = Some t \<and> t \<noteq> [] \<and>
        uuidRegex_test t)"
  unfolding validateClaudeURL_def validateClaudeURL_try_def
  by (auto split: option.splits sum.splits if_splits)

lemma validate_total: "\<exists>b. validateClaudeURL newURL s = Inr b"
  unfolding validateClaudeURL_def by (auto split: sum.splits)

lemma extract_Some_iff:
  "extractShareId newURL s = Inr (Some v) \<longleftrightarrow>
     validateClaudeURL newURL s = Inr True \<and>
     (\<exists>u. newURL s = Some u \<and> at_index (split (pathname u) ''/share/'') 1 = Some v)"
  using validate_total[of newURL s]
  unfolding extractShareId_def by (auto split: option.splits if_splits)

lemma validate_cases:
  "validateClaudeURL newURL s =
     Inr (s \<noteq> [] \<and>
       (\<exists>u t. newURL s = Some u \<and> str_includes (hostname u) ''claude.ai'' \<and>
          startsWith (pathname u) ''/share/'' \<and>
          at_index (split (pathname u) ''/share/'') 1 = Some t \<and> t \<noteq> [] \<and>
          uuidRegex_test t))"
  using validate_True_iff[of newURL s] validate_total[of newURL s] by auto

text \<open>
  Claim C5. For every string \<open>s\<close> and every behaviour of the URL parser,
  \<open>extractShareId\<close> returns a value (not null) exactly when \<open>validateClaudeURL\<close>
  returns true, and a returned value has the token shape: 36 characters, hyphens at
  positions 8, 13, 18 and 23, hexadecimal characters everywhere else.
\<close>

theorem extractShareId_iff_validateClaudeURL:
  "((\<exists>v. extractShareId newURL s = Inr (Some v)) \<longleftrightarrow> validateClaudeURL newURL s = Inr True)
   \<and> (\<forall>v. extractShareId newURL s = Inr (Some v) \<longrightarrow> token_shape v)"
proof (intro conjI allI impI iffI)
  assume "\<exists>v. extractShareId newURL s = Inr (Some v)"
  then show "validateClaudeURL newURL s = Inr True"
    by (auto simp: extract_Some_iff)
next
  assume "validateClaudeURL newURL s = Inr True"
  then show "\<exists>v. extractShareId newURL s = Inr (Some v)"
    by (auto simp: extract_Some_iff validate_True_iff)
next
  fix v
  assume "extractShareId newURL s = Inr (Some v)"
  then have "uuidRegex_test v"
    by (auto simp: extract_Some_iff validate_True_iff)
  then show "token_shape v" by (simp add: regex_shape)
qed

theorem extractShareId_iff_validateClaudeURL_witness:
  "extractShareId URL_http ''https://claude.ai/share/3fa85f64-5717-4562-b3fc-2c963f66afa6''
     = Inr (Some ''3fa85f64-5717-4562-b3fc-2c963f66afa6'')
   \<and> validateClaudeURL URL_http
        ''https://claude.ai/share/3fa85f64-5717-4562-b3fc-2c963f66afa6'' = Inr True
   \<and> token_shape ''3fa85f64-5717-4562-b3fc-2c963f66afa6''"
proof -
  have e: "extractShareId URL_http
      ''https://claude.ai/share/3fa85f64-5717-4562-b3fc-2c963f66afa6''
    = Inr (Some ''3fa85f64-5717-4562-b3fc-2c963f66afa6'')"
    by code_simp
  from e extractShareId_iff_validateClaudeURL
    [of URL_http "''https://claude.ai/share/3fa85f64-5717-4562-b3fc-2c963f66afa6''"]
  show ?thesis by blast
qed

text \<open>
  Claim C8. \<open>validateClaudeURL\<close> never throws: for every string and every behaviour of
  the URL parser it returns a boolean. It returns false on the empty string, when the
  parser throws, when the host name does not contain \<^verbatim>\<open>claude.ai\<close>, when the path does
  not begin with \<^verbatim>\<open>/share/\<close>, and when the token (the piece of the path after the first
  \<^verbatim>\<open>/share/\<close>) does not have the token shape.
\<close>

theorem validateClaudeURL_fails_closed:
  "(\<exists>b. validateClaudeURL newURL s = Inr b)
   \<and> (s = [] \<longrightarrow> validateClaudeURL newURL s = Inr False)
   \<and> (newURL s = None \<longrightarrow> validateClaudeURL newURL s = Inr False)
   \<and> (\<forall>u. newURL s = Some u \<and> \<not> str_includes (hostname u) ''claude.ai''
          \<longrightarrow> validateClaudeURL newURL s = Inr False)
   \<and> (\<forall>u. newURL s = Some u \<and> \<not> startsWith (pathname u) ''/share/''
          \<longrightarrow> validateClaudeURL newURL s = Inr False)
   \<and> (\<forall>u. newURL s = Some u
            \<and> (\<forall>t. at_index (split (pathname u) ''/share/'') 1 = Some t \<longrightarrow> \<not> token_shape t)
          \<longrightarrow> validateClaudeURL newURL s = Inr False)"
proof (intro conjI allI impI)
  show "\<exists>b. validateClaudeURL newURL s = Inr b" by (rule validate_total)
qed (auto simp: validate_cases regex_shape)

theorem validateClaudeURL_fails_closed_witness:
  "validateClaudeURL URL_http [] = Inr False
   \<and> validateClaudeURL URL_http ''not a url'' = Inr False
   \<and> validateClaudeURL URL_http
        ''https://example.com/share/3fa85f64-5717-4562-b3fc-2c963f66afa6'' = Inr False
   \<and> validateClaudeURL URL_http ''https://claude.ai/shared/abc'' = Inr False
   \<and> validateClaudeURL URL_http
        ''https://claude.ai/share/3fa85f64-5717-4562-b3fc-2c963f66afaz'' = Inr False"
proof -
  have "URL_http ''not a url'' = None" by code_simp
  then have 1: "validateClaudeURL URL_http ''not a url'' = Inr False"
    using validateClaudeURL_fails_closed[of URL_http "''not a url''"] by blast
  have 0: "validateClaudeURL URL_http [] = Inr False"
    using validateClaudeURL_fails_closed[of URL_http "[]"] by blast
  have "URL_http ''https://example.com/share/3fa85f64-5717-4562-b3fc-2c963f66afa6''
      = Some \<lparr>hostname = ''example.com'',
               pathname = ''/share/3fa85f64-5717-4562-b3fc-2c963f66afa6''\<rparr>"
    by code_simp
  moreover have "\<not> str_includes ''example.com'' ''claude.ai''" by code_simp
  ultimately have 2: "validateClaudeURL URL_http
      ''https://example.com/share/3fa85f64-5717-4562-b3fc-2c963f66afa6'' = Inr False"
    using validateClaudeURL_fails_closed
      [of URL_http "''https://example.com/share/3fa85f64-5717-4562-b3fc-2c963f66afa6''"]
    by simp
  have "URL_http ''https://claude.ai/shared/abc''
      = Some \<lparr>hostname = ''claude.ai'', pathname = ''/shared/abc''\<rparr>"
    by code_simp
  moreover have "\<not> startsWith ''/shared/abc'' ''/share/''" by code_simp
  ultimately have 3: "validateClaudeURL URL_http ''https://claude.ai/shared/abc'' = Inr False"
    using validateClaudeURL_fails_closed[of URL_http "''https://claude.ai/shared/abc''"]
    by simp
  have "URL_http ''https://claude.ai/share/3fa85f64-5717-4562-b3fc-2c963f66afaz''
      = Some \<lparr>hostname = ''claude.ai'',
               pathname = ''/share/3fa85f64-5717-4562-b3fc-2c963f66afaz''\<rparr>"
    by code_simp
  moreover have "at_index (split ''/share/3fa85f64-5717-4562-b3fc-2c963f66afaz'' ''/share/'') 1
      = Some ''3fa85f64-5717-4562-b3fc-2c963f66afaz''"
    by code_simp
  moreover have "\<not> token_shape ''3fa85f64-5717-4562-b3fc-2c963f66afaz''"
    unfolding regex_shape[symmetric] by code_simp
  ultimately have 4: "validateClaudeURL URL_http
      ''https://claude.ai/share/3fa85f64-5717-4562-b3fc-2c963f66afaz'' = Inr False"
    using validateClaudeURL_fails_closed
      [of URL_http "''https://claude.ai/share/3fa85f64-5717-4562-b3fc-2c963f66afaz''"]
    by simp
  from 0 1 2 3 4 show ?thesis by blast
qed

text \<open>
  Claim C10. The host check is substring containment. The link
  \<^verbatim>\<open>https://claude.ai.attacker.example/share/3fa85f64-5717-4562-b3fc-2c963f66afa6\<close> has
  the host name \<^verbatim>\<open>claude.ai.attacker.example\<close>, which is not the service domain and
  contains it as a substring; \<open>validateClaudeURL\<close> returns true on it and
  \<open>extractShareId\<close> returns the identifier.
\<close>

theorem validateClaudeURL_accepts_foreign_host:
  "map_option hostname (URL_http
      ''https://claude.ai.attacker.example/share/3fa85f64-5717-4562-b3fc-2c963f66afa6'')
     = Some ''claude.ai.attacker.example''
   \<and> ''claude.ai.attacker.example'' \<noteq> ''claude.ai''
   \<and> str_includes ''claude.ai.attacker.example'' ''claude.ai''
   \<and> validateClaudeURL URL_http
        ''https://claude.ai.attacker.example/share/3fa85f64-5717-4562-b3fc-2c963f66afa6''
       = Inr True
   \<and> extractShareId URL_http
        ''https://claude.ai.attacker.example/share/3fa85f64-5717-4562-b3fc-2c963f66afa6''
       = Inr (Some ''3fa85f64-5717-4562-b3fc-2c963f66afa6'')"
  by code_simp

section \<open>Properties of the content normalizer\<close>

lemma startsWith_append: "startsWith (p @ r) p"
  by (induction p) auto

lemma str_includes_suffix: "str_includes b p \<Longrightarrow> str_includes (a @ b) p"
  by (induction a) (auto simp: neq_Nil_conv)

lemma str_includes_middle: "str_includes (a @ p @ b) p"
proof (rule str_includes_suffix)
  show "str_includes (p @ b) p"
    by (cases "p @ b") (use startsWith_append[of p b] in auto)
qed

lemma main_pre_Cons: "main_pre = CHR 0x0A # tl main_pre"
  by (simp add: main_pre_def)

lemma fallback_pre_Cons: "fallback_pre = CHR 0x0A # tl fallback_pre"
  by (simp add: fallback_pre_def)

lemma main_shell_not_empty: "main_shell content \<noteq> []"
  unfolding main_shell_def using main_pre_Cons by (metis append_is_Nil_conv list.distinct(1))

lemma fallback_shell_not_empty: "fallback_shell html \<noteq> []"
  unfolding fallback_shell_def using fallback_pre_Cons
  by (metis append_is_Nil_conv list.distinct(1))

lemma main_shell_styled: "str_includes (main_shell content) main_style"
  unfolding main_shell_def by (rule str_includes_middle)

lemma fallback_shell_styled: "str_includes (fallback_shell html) fallback_style"
  unfolding fallback_shell_def by (rule str_includes_middle)

lemma main_frame:
  "tags_in_order [''<!DOCTYPE html>'', ''<html>'', ''<head>'', ''<style>''] main_pre
   \<and> tags_in_order [''</style>'', ''</head>'', ''<body>''] main_post
   \<and> tags_in_order [''</body>'', ''</html>''] main_tail"
  by code_simp

lemma fallback_frame:
  "tags_in_order [''<!DOCTYPE html>'', ''<html>'', ''<head>'', ''<style>''] fallback_pre
   \<and> tags_in_order [''</style>'', ''</head>'', ''<body>''] fallback_post
   \<and> tags_in_order [''</body>'', ''</html>''] fallback_tail"
  by code_simp

lemma main_pre_indent: "startsWith (main_pre @ r) [CHR 0x0A, CHR '' '', CHR '' '', CHR '' '', CHR '' '', CHR '' '']"
  by (simp add: main_pre_def)

lemma fallback_pre_indent: "\<not> startsWith (fallback_pre @ r) [CHR 0x0A, CHR '' '', CHR '' '', CHR '' '', CHR '' '', CHR '' '']"
  by (simp add: fallback_pre_def)

lemma shells_differ: "main_shell a \<noteq> fallback_shell b"
  unfolding main_shell_def fallback_shell_def
  using main_pre_indent fallback_pre_indent by metis

lemma processHtml_cases:
  "processHtml html =
     (if \<exists>inner. match_main html = Some inner \<and> inner \<noteq> []
      then main_shell (the (match_main html)) else fallback_shell html)"
  unfolding processHtml_def by (auto split: option.splits)

text \<open>
  Claim C6, as the code has it. \<open>processHtml\<close> is total and its result is never empty.
  When the leftmost match of the \<^verbatim>\<open><main>\<close> pattern captures a non-empty inner content,
  the result is the styled shell around that inner content only. When there is no match,
  or the captured inner content is empty, the result is the other styled shell around
  the entire raw payload. Either way the result is a document shell (doctype, html, head
  and style opened before the style rules; style and head closed and body opened after
  them; body and html closed after the content) that contains the style rules.
\<close>

theorem processHtml_styled_document:
  "processHtml html \<noteq> []
   \<and> (\<forall>inner. match_main html = Some inner \<and> inner \<noteq> []
          \<longrightarrow> processHtml html = main_pre @ main_style @ main_post @ inner @ main_tail)
   \<and> (match_main html = None \<or> match_main html = Some []
          \<longrightarrow> processHtml html
                = fallback_pre @ fallback_style @ fallback_post @ html @ fallback_tail)
   \<and> (str_includes (processHtml html) main_style
        \<or> str_includes (processHtml html) fallback_style)
   \<and> tags_in_order [''<!DOCTYPE html>'', ''<html>'', ''<head>'', ''<style>''] main_pre
   \<and> tags_in_order [''</style>'', ''</head>'', ''<body>''] main_post
   \<and> tags_in_order [''</body>'', ''</html>''] main_tail
   \<and> tags_in_order [''<!DOCTYPE html>'', ''<html>'', ''<head>'', ''<style>''] fallback_pre
   \<and> tags_in_order [''</style>'', ''</head>'', ''<body>''] fallback_post
   \<and> tags_in_order [''</body>'', ''</html>''] fallback_tail"
proof -
  have "processHtml html \<noteq> []"
    by (simp add: processHtml_cases main_shell_not_empty fallback_shell_not_empty)
  moreover have "\<forall>inner. match_main html = Some inner \<and> inner \<noteq> []
      \<longrightarrow> processHtml html = main_pre @ main_style @ main_post @ inner @ main_tail"
    by (auto simp: processHtml_def main_shell_def)
  moreover have "match_main html = None \<or> match_main html = Some []
      \<longrightarrow> processHtml html
            = fallback_pre @ fallback_style @ fallback_post @ html @ fallback_tail"
    by (auto simp: processHtml_def fallback_shell_def)
  moreover have "str_includes (processHtml html) main_style
      \<or> str_includes (processHtml html) fallback_style"
    by (simp add: processHtml_cases main_shell_styled fallback_shell_styled)
  ultimately show ?thesis
    using main_frame fallback_frame by blast
qed

theorem processHtml_styled_document_witness:
  "processHtml ''<p>x</p><main class=\"c\">hi</main>''
     = main_pre @ main_style @ main_post @ ''hi'' @ main_tail
   \<and> processHtml ''plain'' = fallback_pre @ fallback_style @ fallback_post @ ''plain'' @ fallback_tail"
proof -
  have "match_main ''<p>x</p><main class=\"c\">hi</main>'' = Some ''hi''" by code_simp
  then have 1: "processHtml ''<p>x</p><main class=\"c\">hi</main>''
      = main_pre @ main_style @ main_post @ ''hi'' @ main_tail"
    using processHtml_styled_document[of "''<p>x</p><main class=\"c\">hi</main>''"] by simp
  have "match_main ''plain'' = None" by code_simp
  then have 2: "processHtml ''plain''
      = fallback_pre @ fallback_style @ fallback_post @ ''plain'' @ fallback_tail"
    using processHtml_styled_document[of "''plain''"] by simp
  from 1 2 show ?thesis by (rule conjI)
qed

text \<open>
  Claim C6 as it is worded fails where a \<^verbatim>\<open><main>\<close> region is found and its inner content
  is empty: on \<^verbatim>\<open><main></main>\<close> the pattern matches and captures the empty string, and
  the result is not the first shell around that (empty) inner content but the second
  shell around the entire payload.
\<close>

theorem processHtml_empty_main_counterexample:
  "match_main ''<main></main>'' = Some []
   \<and> processHtml ''<main></main>'' \<noteq> main_shell []
   \<and> processHtml ''<main></main>'' = fallback_shell ''<main></main>''"
proof -
  have m: "match_main ''<main></main>'' = Some []" by code_simp
  then have p: "processHtml ''<main></main>'' = fallback_shell ''<main></main>''"
    by (simp add: processHtml_def)
  with m shells_differ[of "[]" "''<main></main>''"] show ?thesis by simp
qed

section \<open>Properties of the content fetcher\<close>

lemma log_fields [simp]:
  "requests (log x w) = requests w" "downloads (log x w) = downloads w"
  "body_children (log x w) = body_children w" "timers (log x w) = timers w"
  "iframes_created (log x w) = iframes_created w"
  by (simp_all add: log_def)

lemma fetch_fields [simp]:
  "requests (snd (fetch e req w)) = requests w @ [req]"
  "downloads (snd (fetch e req w)) = downloads w"
  "body_children (snd (fetch e req w)) = body_children w"
  "timers (snd (fetch e req w)) = timers w"
  "iframes_created (snd (fetch e req w)) = iframes_created w"
  "fst (fetch e req w) = fetch_result e (requests w @ [req])"
  by (simp_all add: fetch_def Let_def)

lemma proxy_answer_Cons_0:
  "proxy_answer e sid (p # ps) w 0 = success_body (fetch_result e (requests w @ [proxy_request sid p]))"
  by (simp add: proxy_answer_def)

lemma proxy_answer_Cons_Suc:
  "requests w1 = requests w @ [proxy_request sid p] \<Longrightarrow>
   proxy_answer e sid (p # ps) w (Suc j) = proxy_answer e sid ps w1 j"
  by (simp add: proxy_answer_def)

text \<open>One turn of the loop, by what the proxy answers.\<close>

lemma fetch_Pair:
  assumes "fetch e req w = (out, w')"
  shows "out = fetch_result e (requests w @ [req])"
    and "requests w' = requests w @ [req]" and "downloads w' = downloads w"
    and "body_children w' = body_children w" and "timers w' = timers w"
    and "iframes_created w' = iframes_created w"
  using assms by (auto simp: fetch_def Let_def)

lemma try_proxies_step_fail:
  assumes "success_body (fetch_result e (requests w @ [proxy_request sid p])) = None"
  shows "\<exists>w1. try_proxies e sid (p # ps) w = try_proxies e sid ps w1
            \<and> requests w1 = requests w @ [proxy_request sid p]
            \<and> downloads w1 = downloads w \<and> body_children w1 = body_children w
            \<and> timers w1 = timers w \<and> iframes_created w1 = iframes_created w"
proof (cases "fetch e (proxy_request sid p) w")
  case (Pair out w')
  note f = fetch_Pair[OF Pair]
  show ?thesis
  proof (cases out)
    case (Rejected err)
    with Pair f(2-6) show ?thesis
      by (intro exI[of _ "log (Warn (''Proxy '' @ p @ '' failed:'') err) w'"]) simp
  next
    case (Responded r)
    show ?thesis
    proof (cases "ok r")
      case False
      with Pair Responded f(2-6) show ?thesis by (intro exI[of _ w']) simp
    next
      case True
      from assms f(1) have "success_body out = None" by simp
      with Responded True obtain err where "text_result r = Inl err"
        by (auto simp: success_body_def split: sum.splits)
      with Pair Responded True f(2-6) show ?thesis
        by (intro exI[of _ "log (Warn (''Proxy '' @ p @ '' failed:'') err) w'"]) simp
    qed
  qed
qed

lemma try_proxies_step_success:
  assumes "success_body (fetch_result e (requests w @ [proxy_request sid p])) = Some html"
  shows "try_proxies e sid (p # ps) w = (Some html, snd (fetch e (proxy_request sid p) w))"
proof (cases "fetch e (proxy_request sid p) w")
  case (Pair out w')
  then have o: "out = fetch_result e (requests w @ [proxy_request sid p])"
    using fetch_fields(6)[of e "proxy_request sid p" w] by auto
  with assms Pair show ?thesis
    by (auto simp: success_body_def split: fetch_outcome.splits sum.splits if_splits)
qed

lemma try_proxies_all_fail:
  "(\<forall>j<length ps. proxy_answer e sid ps w j = None) \<Longrightarrow>
   \<exists>w'. try_proxies e sid ps w = (None, w')
       \<and> requests w' = requests w @ map (proxy_request sid) ps
       \<and> downloads w' = downloads w \<and> body_children w' = body_children w
       \<and> timers w' = timers w \<and> iframes_created w' = iframes_created w"
proof (induction ps arbitrary: w)
  case Nil
  then show ?case by simp
next
  case (Cons p ps)
  from Cons.prems have "proxy_answer e sid (p # ps) w 0 = None" by blast
  then have "success_body (fetch_result e (requests w @ [proxy_request sid p])) = None"
    by (simp add: proxy_answer_Cons_0)
  from try_proxies_step_fail[OF this, of ps] obtain w1 where
    w1: "try_proxies e sid (p # ps) w = try_proxies e sid ps w1"
      "requests w1 = requests w @ [proxy_request sid p]"
      "downloads w1 = downloads w" "body_children w1 = body_children w"
      "timers w1 = timers w" "iframes_created w1 = iframes_created w"
    by blast
  have "\<forall>j<length ps. proxy_answer e sid ps w1 j = None"
  proof (intro allI impI)
    fix j assume "j < length ps"
    then have "proxy_answer e sid (p # ps) w (Suc j) = None" using Cons.prems by simp
    then show "proxy_answer e sid ps w1 j = None"
      by (simp add: proxy_answer_Cons_Suc[OF w1(2)])
  qed
  from Cons.IH[OF this] w1 show ?case by auto
qed

lemma try_proxies_first_success:
  "k < length ps \<Longrightarrow> (\<forall>j<k. proxy_answer e sid ps w j = None) \<Longrightarrow>
   proxy_answer e sid ps w k = Some html \<Longrightarrow>
   \<exists>w'. try_proxies e sid ps w = (Some html, w')
       \<and> requests w' = requests w @ map (proxy_request sid) (take (Suc k) ps)
       \<and> downloads w' = downloads w \<and> body_children w' = body_children w
       \<and> timers w' = timers w \<and> iframes_created w' = iframes_created w"
proof (induction ps arbitrary: w k)
  case Nil
  then show ?case by simp
next
  case (Cons p ps)
  show ?case
  proof (cases k)
    case 0
    with Cons.prems have
      "success_body (fetch_result e (requests w @ [proxy_request sid p])) = Some html"
      by (simp add: proxy_answer_Cons_0)
    from try_proxies_step_success[OF this, of ps] 0 show ?thesis by simp
  next
    case (Suc k')
    with Cons.prems have "proxy_answer e sid (p # ps) w 0 = None" by blast
    then have "success_body (fetch_result e (requests w @ [proxy_request sid p])) = None"
      by (simp add: proxy_answer_Cons_0)
    from try_proxies_step_fail[OF this, of ps] obtain w1 where
      w1: "try_proxies e sid (p # ps) w = try_proxies e sid ps w1"
        "requests w1 = requests w @ [proxy_request sid p]"
        "downloads w1 = downloads w" "body_children w1 = body_children w"
        "timers w1 = timers w" "iframes_created w1 = iframes_created w"
      by blast
    have a: "\<forall>j<k'. proxy_answer e sid ps w1 j = None"
    proof (intro allI impI)
      fix j assume "j < k'"
      then have "proxy_answer e sid (p # ps) w (Suc j) = None" using Cons.prems Suc by simp
      then show "proxy_answer e sid ps w1 j = None"
        by (simp add: proxy_answer_Cons_Suc[OF w1(2)])
    qed
    have b: "proxy_answer e sid ps w1 k' = Some html"
      using Cons.prems(3) Suc by (simp add: proxy_answer_Cons_Suc[OF w1(2)])
    have c: "k' < length ps" using Cons.prems(1) Suc by simp
    from Cons.IH[OF c a b] w1 Suc show ?thesis by auto
  qed
qed

text \<open>Either some proxy is the first to succeed, or all of them fail.\<close>

lemma first_success_or_all_fail:
  "(\<exists>k<n::nat. (\<forall>j<k. f j = None) \<and> f k \<noteq> None) \<or> (\<forall>j<n. f j = (None :: 'a option))"
proof (cases "\<exists>k<n. f k \<noteq> None")
  case True
  define k where "k = (LEAST k. k < n \<and> f k \<noteq> None)"
  from True have k: "k < n \<and> f k \<noteq> None"
    unfolding k_def using LeastI_ex[of "\<lambda>k. k < n \<and> f k \<noteq> None"] by blast
  have "f j = None" if "j < k" for j
  proof (rule ccontr)
    assume "f j \<noteq> None"
    with that k have "j < n \<and> f j \<noteq> None" by simp
    then have "k \<le> j"
      unfolding k_def using Least_le[of "\<lambda>k. k < n \<and> f k \<noteq> None" j] by blast
    with that show False by simp
  qed
  with k show ?thesis by blast
next
  case False
  then show ?thesis by blast
qed

lemma fetchClaudeContent_first_success:
  assumes "k < length corsProxies"
    and "\<forall>j<k. proxy_answer e sid corsProxies w j = None"
    and "proxy_answer e sid corsProxies w k = Some html"
  shows "\<exists>w'. fetchClaudeContent e sid w = (Inr html, w')
       \<and> requests w' = requests w @ map (proxy_request sid) (take (Suc k) corsProxies)
       \<and> downloads w' = downloads w \<and> body_children w' = body_children w
       \<and> timers w' = timers w \<and> iframes_created w' = iframes_created w"
proof -
  from try_proxies_first_success[OF assms] obtain w' where
    "try_proxies e sid corsProxies w = (Some html, w')"
    "requests w' = requests w @ map (proxy_request sid) (take (Suc k) corsProxies)"
    "downloads w' = downloads w" "body_children w' = body_children w"
    "timers w' = timers w" "iframes_created w' = iframes_created w"
    by blast
  then show ?thesis
    by (simp add: fetchClaudeContent_def fetchClaudeContent_try_def)
qed

lemma fetchClaudeContent_all_fail:
  assumes "\<forall>j<length corsProxies. proxy_answer e sid corsProxies w j = None"
  shows "\<exists>w'. fetchClaudeContent e sid w =
         ((case success_body (fetch_result e
                 (requests w @ map (proxy_request sid) corsProxies @ [direct_request sid])) of
             Some html \<Rightarrow> Inr html
           | None \<Rightarrow> Inl (Error fetch_failed_message)), w')
       \<and> requests w' = requests w @ map (proxy_request sid) corsProxies @ [direct_request sid]
       \<and> downloads w' = downloads w \<and> body_children w' = body_children w
       \<and> timers w' = timers w \<and> iframes_created w' = iframes_created w"
proof -
  from try_proxies_all_fail[OF assms] obtain w1 where
    w1: "try_proxies e sid corsProxies w = (None, w1)"
      "requests w1 = requests w @ map (proxy_request sid) corsProxies"
      "downloads w1 = downloads w" "body_children w1 = body_children w"
      "timers w1 = timers w" "iframes_created w1 = iframes_created w"
    by blast
  obtain out w2 where f: "fetch e (direct_request sid) w1 = (out, w2)"
    by (cases "fetch e (direct_request sid) w1")
  note w2 = fetch_Pair[OF f]
  from w2(1) w1(2) have o: "out = fetch_result e
      (requests w @ map (proxy_request sid) corsProxies @ [direct_request sid])"
    by simp
  have t: "fetchClaudeContent_try e sid w =
      (case out of
         Rejected err \<Rightarrow> (Inl err, w2)
       | Responded r \<Rightarrow>
           if \<not> ok r then
             (Inl (Error (''Failed to fetch content: '' @ show_nat (status r) @ '' ''
                          @ statusText r)), w2)
           else (text_result r, w2))"
    by (simp add: fetchClaudeContent_try_def w1(1) f)
  show ?thesis
  proof (cases "success_body out")
    case None
    then have "\<exists>error. fetchClaudeContent_try e sid w = (Inl error, w2)"
      unfolding t
      by (auto simp: success_body_def split: fetch_outcome.splits sum.splits if_splits)
    then obtain error where "fetchClaudeContent_try e sid w = (Inl error, w2)" ..
    then have "fetchClaudeContent e sid w
        = (Inl (Error fetch_failed_message),
           log (Err ''Error fetching Claude content:'' error) w2)"
      by (simp add: fetchClaudeContent_def)
    moreover from None o have "success_body (fetch_result e
        (requests w @ map (proxy_request sid) corsProxies @ [direct_request sid])) = None"
      by simp
    ultimately show ?thesis using w2(2-6) w1(2-6) by simp
  next
    case (Some html)
    then have "fetchClaudeContent_try e sid w = (Inr html, w2)"
      unfolding t
      by (auto simp: success_body_def split: fetch_outcome.splits sum.splits if_splits)
    then have "fetchClaudeContent e sid w = (Inr html, w2)"
      by (simp add: fetchClaudeContent_def)
    moreover from Some o have "success_body (fetch_result e
        (requests w @ map (proxy_request sid) corsProxies @ [direct_request sid]))
        = Some html"
      by simp
    ultimately show ?thesis using w2(2-6) w1(2-6) by simp
  qed
qed

lemma fetch_failed_message_not_raw:
  "fetch_failed_message \<noteq> ''Failed to fetch content: '' @ rest"
  by (simp add: fetch_failed_message_def)

lemma fetchClaudeContent_cases:
  "(\<forall>k html. k < length corsProxies
        \<and> (\<forall>j<k. proxy_answer e sid corsProxies w j = None)
        \<and> proxy_answer e sid corsProxies w k = Some html
      \<longrightarrow> fst (fetchClaudeContent e sid w) = Inr html
          \<and> requests (snd (fetchClaudeContent e sid w))
              = requests w @ map (proxy_request sid) (take (Suc k) corsProxies))
   \<and> ((\<forall>j<length corsProxies. proxy_answer e sid corsProxies w j = None)
      \<longrightarrow> requests (snd (fetchClaudeContent e sid w))
              = requests w @ map (proxy_request sid) corsProxies @ [direct_request sid]
          \<and> fst (fetchClaudeContent e sid w)
              = (case success_body (fetch_result e
                       (requests w @ map (proxy_request sid) corsProxies
                        @ [direct_request sid])) of
                   Some html \<Rightarrow> Inr html
                 | None \<Rightarrow> Inl (Error fetch_failed_message)))
   \<and> (\<forall>err. fst (fetchClaudeContent e sid w) = Inl err
      \<longrightarrow> err = Error fetch_failed_message
          \<and> (\<forall>j<length corsProxies. proxy_answer e sid corsProxies w j = None)
          \<and> success_body (fetch_result e
                (requests w @ map (proxy_request sid) corsProxies @ [direct_request sid]))
              = None)
   \<and> map fst (req_headers (direct_request sid)) = [''Accept'', ''User-Agent'']
   \<and> (\<forall>p. req_headers (proxy_request sid p) = [])
   \<and> (\<forall>st stt. fetch_failed_message
          \<noteq> ''Failed to fetch content: '' @ show_nat st @ '' '' @ stt)"
proof (intro conjI allI impI)
  fix k html
  assume "k < length corsProxies
        \<and> (\<forall>j<k. proxy_answer e sid corsProxies w j = None)
        \<and> proxy_answer e sid corsProxies w k = Some html"
  then obtain w' where "fetchClaudeContent e sid w = (Inr html, w')"
    "requests w' = requests w @ map (proxy_request sid) (take (Suc k) corsProxies)"
    using fetchClaudeContent_first_success[of k e sid w html] by blast
  then show "fst (fetchClaudeContent e sid w) = Inr html"
    and "requests (snd (fetchClaudeContent e sid w))
              = requests w @ map (proxy_request sid) (take (Suc k) corsProxies)"
    by simp_all
next
  assume a: "\<forall>j<length corsProxies. proxy_answer e sid corsProxies w j = None"
  from fetchClaudeContent_all_fail[OF a]
  show "requests (snd (fetchClaudeContent e sid w))
              = requests w @ map (proxy_request sid) corsProxies @ [direct_request sid]"
    and "fst (fetchClaudeContent e sid w)
              = (case success_body (fetch_result e
                       (requests w @ map (proxy_request sid) corsProxies
                        @ [direct_request sid])) of
                   Some html \<Rightarrow> Inr html
                 | None \<Rightarrow> Inl (Error fetch_failed_message))"
    by auto
next
  fix err
  assume r: "fst (fetchClaudeContent e sid w) = Inl err"
  have all: "\<forall>j<length corsProxies. proxy_answer e sid corsProxies w j = None"
  proof (rule ccontr)
    assume "\<not> ?thesis"
    with first_success_or_all_fail[of "length corsProxies" "proxy_answer e sid corsProxies w"]
    obtain k html where "k < length corsProxies"
      "\<forall>j<k. proxy_answer e sid corsProxies w j = None"
      "proxy_answer e sid corsProxies w k = Some html"
      by auto
    from fetchClaudeContent_first_success[OF this] r show False by auto
  qed
  from fetchClaudeContent_all_fail[OF all] r
  show "err = Error fetch_failed_message"
    and "success_body (fetch_result e
                (requests w @ map (proxy_request sid) corsProxies @ [direct_request sid]))
              = None"
    by (auto split: option.splits)
  fix j assume "j < length corsProxies"
  with all show "proxy_answer e sid corsProxies w j = None" by simp
next
  show "map fst (req_headers (direct_request sid)) = [''Accept'', ''User-Agent'']"
    by (simp add: direct_request_def)
next
  fix p show "req_headers (proxy_request sid p) = []" by (simp add: proxy_request_def)
next
  fix st stt
  show "fetch_failed_message \<noteq> ''Failed to fetch content: '' @ show_nat st @ '' '' @ stt"
    by (rule fetch_failed_message_not_raw)
qed

text \<open>
  Claim C7. \<open>fetchClaudeContent\<close> asks, in this order, the three proxy paths
  \<^verbatim>\<open>https://corsproxy.io/?\<close>, \<^verbatim>\<open>https://cors-anywhere.herokuapp.com/\<close> and
  \<^verbatim>\<open>https://api.allorigins.win/raw?url=\<close>, each followed by the share link
  \<^verbatim>\<open>https://claude.ai/share/<identifier>\<close>, without headers. If path number \<open>k\<close> is
  the first whose request resolves with an ok response and a readable body, the function
  returns that body and has issued the requests to the paths up to \<open>k\<close> and no other.
  If every path fails, it has issued the requests to all three and then one direct
  request to the share link itself, carrying an \<^verbatim>\<open>Accept\<close> and a \<^verbatim>\<open>User-Agent\<close>
  header; it returns the body of that request if it succeeds and otherwise raises an
  error. An error is raised in that last case only, and it always carries the same
  user-facing message, which differs from the message of the underlying failure that the
  function builds from a response status.
\<close>

theorem fetchClaudeContent_ordered_fallback:
  fixes e :: env and sid :: string and w :: world
  defines "paths \<equiv>
     [''https://corsproxy.io/?'',
      ''https://cors-anywhere.herokuapp.com/'',
      ''https://api.allorigins.win/raw?url='']"
  defines "via \<equiv> \<lambda>path. \<lparr>req_url = path @ ''https://claude.ai/share/'' @ sid,
                            req_headers = []\<rparr>"
  defines "direct \<equiv>
     \<lparr>req_url = ''https://claude.ai/share/'' @ sid,
      req_headers =
        [(''Accept'', ''text/html''),
         (''User-Agent'', ''Mozilla/5.0 (Windows NT 10.0; Win64; x64) AppleWebKit/537.36'')]\<rparr>"
  defines "answer \<equiv> \<lambda>j. success_body (fetch_result e
                             (requests w @ map via (take (Suc j) paths)))"
  defines "message \<equiv>
     ''Failed to fetch Claude conversation. Please make sure the share link is public and valid.''"
  shows "(\<forall>k html. k < length paths \<and> (\<forall>j<k. answer j = None) \<and> answer k = Some html
      \<longrightarrow> fst (fetchClaudeContent e sid w) = Inr html
          \<and> requests (snd (fetchClaudeContent e sid w))
              = requests w @ map via (take (Suc k) paths))
   \<and> ((\<forall>j<length paths. answer j = None)
      \<longrightarrow> requests (snd (fetchClaudeContent e sid w))
              = requests w @ map via paths @ [direct]
          \<and> fst (fetchClaudeContent e sid w)
              = (case success_body (fetch_result e (requests w @ map via paths @ [direct])) of
                   Some html \<Rightarrow> Inr html
                 | None \<Rightarrow> Inl (Error message)))
   \<and> (\<forall>err. fst (fetchClaudeContent e sid w) = Inl err
      \<longrightarrow> err = Error message
          \<and> (\<forall>j<length paths. answer j = None)
          \<and> success_body (fetch_result e (requests w @ map via paths @ [direct])) = None)
   \<and> (\<forall>st stt. message \<noteq> ''Failed to fetch content: '' @ show_nat st @ '' '' @ stt)"
proof -
  have paths: "paths = corsProxies" by (simp add: paths_def corsProxies_def)
  have via: "via = proxy_request sid" by (simp add: via_def proxy_request_def fun_eq_iff)
  have direct: "direct = direct_request sid" by (simp add: direct_def direct_request_def)
  have answer: "answer = proxy_answer e sid corsProxies w"
    by (simp add: answer_def proxy_answer_def fun_eq_iff paths via)
  have message: "message = fetch_failed_message"
    by (simp add: message_def fetch_failed_message_def)
  from fetchClaudeContent_cases[of e sid w] show ?thesis
    unfolding paths via direct answer message by blast
qed

theorem fetchClaudeContent_ordered_fallback_witness:
  "fst (fetchClaudeContent env_offline ''3fa85f64-5717-4562-b3fc-2c963f66afa6'' world0)
     = Inl (Error
         ''Failed to fetch Claude conversation. Please make sure the share link is public and valid.'')
   \<and> requests (snd (fetchClaudeContent env_offline ''3fa85f64-5717-4562-b3fc-2c963f66afa6''
        world0))
     = [\<lparr>req_url = ''https://corsproxy.io/?https://claude.ai/share/3fa85f64-5717-4562-b3fc-2c963f66afa6'',
         req_headers = []\<rparr>,
        \<lparr>req_url = ''https://cors-anywhere.herokuapp.com/https://claude.ai/share/3fa85f64-5717-4562-b3fc-2c963f66afa6'',
         req_headers = []\<rparr>,
        \<lparr>req_url = ''https://api.allorigins.win/raw?url=https://claude.ai/share/3fa85f64-5717-4562-b3fc-2c963f66afa6'',
         req_headers = []\<rparr>,
        \<lparr>req_url = ''https://claude.ai/share/3fa85f64-5717-4562-b3fc-2c963f66afa6'',
         req_headers =
           [(''Accept'', ''text/html''),
            (''User-Agent'',
             ''Mozilla/5.0 (Windows NT 10.0; Win64; x64) AppleWebKit/537.36'')]\<rparr>]
   \<and> fst (fetchClaudeContent env_online ''3fa85f64-5717-4562-b3fc-2c963f66afa6'' world0)
     = Inr ''<html><main><p>Hello</p></main></html>''
   \<and> requests (snd (fetchClaudeContent env_online ''3fa85f64-5717-4562-b3fc-2c963f66afa6''
        world0))
     = [\<lparr>req_url = ''https://corsproxy.io/?https://claude.ai/share/3fa85f64-5717-4562-b3fc-2c963f66afa6'',
         req_headers = []\<rparr>,
        \<lparr>req_url = ''https://cors-anywhere.herokuapp.com/https://claude.ai/share/3fa85f64-5717-4562-b3fc-2c963f66afa6'',
         req_headers = []\<rparr>]"
proof -
  let ?sid = "''3fa85f64-5717-4562-b3fc-2c963f66afa6''"
  note off = fetchClaudeContent_ordered_fallback
    [where e = env_offline and sid = ?sid and w = world0]
  have "fetch_result env_offline = (\<lambda>history. Rejected (TypeError ''Failed to fetch''))"
    by (simp add: env_offline_def)
  then have o: "success_body (fetch_result env_offline h) = None" for h
    by (simp add: success_body_def)
  from off[THEN conjunct2, THEN conjunct1] o
  have 1: "fst (fetchClaudeContent env_offline ?sid world0)
     = Inl (Error
         ''Failed to fetch Claude conversation. Please make sure the share link is public and valid.'')"
    and 2: "requests (snd (fetchClaudeContent env_offline ?sid world0))
     = [\<lparr>req_url = ''https://corsproxy.io/?https://claude.ai/share/3fa85f64-5717-4562-b3fc-2c963f66afa6'',
         req_headers = []\<rparr>,
        \<lparr>req_url = ''https://cors-anywhere.herokuapp.com/https://claude.ai/share/3fa85f64-5717-4562-b3fc-2c963f66afa6'',
         req_headers = []\<rparr>,
        \<lparr>req_url = ''https://api.allorigins.win/raw?url=https://claude.ai/share/3fa85f64-5717-4562-b3fc-2c963f66afa6'',
         req_headers = []\<rparr>,
        \<lparr>req_url = ''https://claude.ai/share/3fa85f64-5717-4562-b3fc-2c963f66afa6'',
         req_headers =
           [(''Accept'', ''text/html''),
            (''User-Agent'',
             ''Mozilla/5.0 (Windows NT 10.0; Win64; x64) AppleWebKit/537.36'')]\<rparr>]"
    by (simp_all add: world0_def)
  note on = fetchClaudeContent_ordered_fallback
    [where e = env_online and sid = ?sid and w = world0, THEN conjunct1, rule_format,
     of 1 "''<html><main><p>Hello</p></main></html>''"]
  have 3: "fst (fetchClaudeContent env_online ?sid world0)
     = Inr ''<html><main><p>Hello</p></main></html>''"
    and 4: "requests (snd (fetchClaudeContent env_online ?sid world0))
     = [\<lparr>req_url = ''https://corsproxy.io/?https://claude.ai/share/3fa85f64-5717-4562-b3fc-2c963f66afa6'',
         req_headers = []\<rparr>,
        \<lparr>req_url = ''https://cors-anywhere.herokuapp.com/https://claude.ai/share/3fa85f64-5717-4562-b3fc-2c963f66afa6'',
         req_headers = []\<rparr>]"
    using on by (simp_all add: world0_def env_online_def env_offline_def success_body_def)
  from 1 2 3 4 show ?thesis by blast
qed

section \<open>Properties of the paginator\<close>

lemma pages_addImage_addPage:
  "pages (addImage d x y w h (addPage p)) = pages p @ [[Image d x y w h]]"
  by (simp add: addImage_def addPage_def draw_on_current_def)

lemma pages_first_image:
  "pages (addImage d x y w h new_jsPDF) = [[Image d x y w h]]"
  by (simp add: addImage_def new_jsPDF_def draw_on_current_def)

lemma ceiling_pages_step:
  assumes "0 < (hl :: rat)"
  shows "nat \<lceil>hl / pageHeight\<rceil> = Suc (nat \<lceil>(hl - pageHeight) / pageHeight\<rceil>)"
proof -
  have "(hl - pageHeight) / pageHeight = hl / pageHeight - 1"
    by (simp add: pageHeight_def diff_divide_distrib)
  then have e: "\<lceil>(hl - pageHeight) / pageHeight\<rceil> = \<lceil>hl / pageHeight\<rceil> - 1"
    by simp
  from assms have "0 < hl / pageHeight" by (simp add: pageHeight_def)
  then have "0 < \<lceil>hl / pageHeight\<rceil>" by simp
  with e show ?thesis by linarith
qed

lemma upt_first: "[n ..< n + Suc m] = n # [n + 1 ..< n + 1 + m]"
  by (simp add: upt_conv_Cons del: upt_Suc)

lemma ceiling_pages_done:
  assumes "\<not> 0 < (hl :: rat)"
  shows "nat \<lceil>hl / pageHeight\<rceil> = 0"
proof -
  from assms have "hl / pageHeight \<le> 0" by (simp add: pageHeight_def divide_le_0_iff)
  then have "\<lceil>hl / pageHeight\<rceil> \<le> 0" by (simp add: ceiling_le_iff)
  then show ?thesis by simp
qed

lemma add_pages_step:
  "0 < hl \<Longrightarrow>
   add_pages d ih (Fin hl) n p =
     add_pages d ih (Fin (hl - pageHeight)) (n + 1)
       (addImage d 0 (- pageHeight * of_nat n) imgWidth ih (addPage p))"
  by (subst add_pages.simps) (simp add: greater_zero_def minus_number_def)

lemma add_pages_stop: "\<not> 0 < hl \<Longrightarrow> add_pages d ih (Fin hl) n p = Some p"
  by (subst add_pages.simps) (simp add: greater_zero_def)

text \<open>On a finite height the loop ends, after the pages that are still missing.\<close>

lemma add_pages_finite:
  "\<exists>p'. add_pages d ih (Fin hl) n p = Some p'
     \<and> pages p' = pages p @ map (\<lambda>i. [Image d 0 (- (of_nat i * pageHeight)) imgWidth ih])
                               [n ..< n + nat \<lceil>hl / pageHeight\<rceil>]"
proof (induction "nat \<lceil>hl\<rceil>" arbitrary: hl n p rule: less_induct)
  case less
  show ?case
  proof (cases "0 < hl")
    case True
    then have "0 < \<lceil>hl\<rceil>" by simp
    moreover have "\<lceil>hl - pageHeight\<rceil> = \<lceil>hl\<rceil> - 297"
      unfolding pageHeight_def by linarith
    ultimately have "nat \<lceil>hl - pageHeight\<rceil> < nat \<lceil>hl\<rceil>" by linarith
    from less[OF this, of "n + 1"
        "addImage d 0 (- pageHeight * of_nat n) imgWidth ih (addPage p)"]
    obtain p' where p': "add_pages d ih (Fin (hl - pageHeight)) (n + 1)
          (addImage d 0 (- pageHeight * of_nat n) imgWidth ih (addPage p)) = Some p'"
      "pages p' = pages (addImage d 0 (- pageHeight * of_nat n) imgWidth ih (addPage p))
         @ map (\<lambda>i. [Image d 0 (- (of_nat i * pageHeight)) imgWidth ih])
             [n + 1 ..< n + 1 + nat \<lceil>(hl - pageHeight) / pageHeight\<rceil>]"
      by blast
    have "pages p' = pages p @ map (\<lambda>i. [Image d 0 (- (of_nat i * pageHeight)) imgWidth ih])
        (n # [n + 1 ..< n + 1 + nat \<lceil>(hl - pageHeight) / pageHeight\<rceil>])"
      unfolding p'(2) pages_addImage_addPage by (simp add: mult.commute)
    also have "n # [n + 1 ..< n + 1 + nat \<lceil>(hl - pageHeight) / pageHeight\<rceil>]
        = [n ..< n + nat \<lceil>hl / pageHeight\<rceil>]"
      unfolding ceiling_pages_step[OF True] by (rule upt_first[symmetric])
    finally show ?thesis using p'(1) add_pages_step[OF True, of d ih n p] by simp
  next
    case False
    then show ?thesis by (simp add: add_pages_stop ceiling_pages_done)
  qed
qed

text \<open>On an infinite height the loop never ends.\<close>

lemma add_pages_Some_not_infinite:
  assumes "add_pages d ih hl n p = Some y"
  shows "hl \<noteq> PosInfinity"
proof (rule add_pages.raw_induct
    [where P = "\<lambda>d ih hl n p y. hl \<noteq> PosInfinity", OF _ assms])
  fix f :: "string \<Rightarrow> number \<Rightarrow> number \<Rightarrow> nat \<Rightarrow> pdf \<Rightarrow> pdf option"
    and d' ih' hl' n' p' y'
  assume IH: "\<And>a b c k q r. f a b c k q = Some r \<Longrightarrow> c \<noteq> PosInfinity"
    and step: "(if greater_zero hl' then
        f d' ih' (minus_number hl' pageHeight) (n' + 1)
          (addImage d' 0 (- pageHeight * of_nat n') imgWidth ih' (addPage p'))
      else Some p') = Some y'"
  show "hl' \<noteq> PosInfinity"
  proof
    assume "hl' = PosInfinity"
    with step have "f d' ih' PosInfinity (n' + 1)
        (addImage d' 0 (- pageHeight * of_nat n') imgWidth ih' (addPage p')) = Some y'"
      by (simp add: greater_zero_def minus_number_def)
    from IH[OF this] show False by simp
  qed
qed

lemma add_pages_infinite: "add_pages d ih PosInfinity n p = None"
  using add_pages_Some_not_infinite[of d ih PosInfinity n p] by (cases "add_pages d ih PosInfinity n p") auto

lemma add_pages_nan: "add_pages d ih NaN n p = Some p"
  by (subst add_pages.simps) (simp add: greater_zero_def)

lemma imgHeight_of_finite:
  "0 < width c \<Longrightarrow> imgHeight_of c = Fin (of_nat (height c) * 210 / of_nat (width c))"
  by (simp add: imgHeight_of_def divide_number_def imgWidth_def)

lemma imgHeight_of_zero_width:
  "width c = 0 \<Longrightarrow> imgHeight_of c = (if 0 < height c then PosInfinity else NaN)"
  by (simp add: imgHeight_of_def divide_number_def imgWidth_def)

lemma paginate_pages:
  assumes "imgHeight_of c = Fin C" and "0 < C"
  shows "\<exists>p. paginate d c = Some p
     \<and> pages p = map (\<lambda>i. [Image d 0 (- (of_nat i * pageHeight)) imgWidth (Fin C)])
                   [0 ..< nat \<lceil>C / pageHeight\<rceil>]"
proof -
  let ?f = "\<lambda>i. [Image d 0 (- (of_nat i * pageHeight)) imgWidth (Fin C)]"
  from add_pages_finite[of d "Fin C" "C - pageHeight" 1
      "addImage d 0 0 imgWidth (Fin C) new_jsPDF"]
  obtain p where p: "add_pages d (Fin C) (Fin (C - pageHeight)) 1
        (addImage d 0 0 imgWidth (Fin C) new_jsPDF) = Some p"
    "pages p = pages (addImage d 0 0 imgWidth (Fin C) new_jsPDF)
       @ map ?f [1 ..< 1 + nat \<lceil>(C - pageHeight) / pageHeight\<rceil>]"
    by blast
  have r: "paginate d c = Some p"
    using p(1) by (simp add: paginate_def Let_def assms(1) minus_number_def)
  have "pages p = map ?f (0 # [1 ..< 1 + nat \<lceil>(C - pageHeight) / pageHeight\<rceil>])"
    unfolding p(2) pages_first_image by simp
  also have "0 # [1 ..< 1 + nat \<lceil>(C - pageHeight) / pageHeight\<rceil>]
      = [0 ..< nat \<lceil>C / pageHeight\<rceil>]"
    unfolding ceiling_pages_step[OF assms(2)] using upt_first[of 0, symmetric] by simp
  finally have "pages p = map ?f [0 ..< nat \<lceil>C / pageHeight\<rceil>]" .
  with r show ?thesis by blast
qed

text \<open>Pagination returns except on a canvas without width and with height.\<close>

lemma paginate_None_iff: "paginate d c = None \<longleftrightarrow> width c = 0 \<and> 0 < height c"
proof (cases "width c = 0")
  case True
  then show ?thesis
    by (simp add: paginate_def Let_def imgHeight_of_zero_width minus_number_def
        add_pages_infinite add_pages_nan)
next
  case False
  then have "imgHeight_of c = Fin (of_nat (height c) * 210 / of_nat (width c))"
    by (simp add: imgHeight_of_finite)
  then have "paginate d c = add_pages d (imgHeight_of c)
      (Fin (of_nat (height c) * 210 / of_nat (width c) - pageHeight)) 1
      (addImage d 0 0 imgWidth (imgHeight_of c) new_jsPDF)"
    by (simp add: paginate_def Let_def minus_number_def)
  moreover from add_pages_finite obtain p' where "add_pages d (imgHeight_of c)
      (Fin (of_nat (height c) * 210 / of_nat (width c) - pageHeight)) 1
      (addImage d 0 0 imgWidth (imgHeight_of c) new_jsPDF) = Some p'"
    by blast
  ultimately show ?thesis using False by simp
qed

text \<open>
  Claim C4. For a captured image of positive width and height, with the page height
  \<open>H = 297\<close> and the scaled content height \<open>C = canvas.height * 210 / canvas.width\<close>,
  pagination returns a document of exactly \<open>ceil (C / H)\<close> pages, at least one; the
  page of index \<open>i\<close> carries the whole image, 210 wide and \<open>C\<close> high, at the vertical
  offset \<open>- (i * H)\<close>, so page 0 has offset 0; and when \<open>C\<close> is \<open>k\<close> times \<open>H\<close>
  there are \<open>k\<close> pages, none of them a trailing blank one.
\<close>

theorem paginate_page_count_and_offsets:
  fixes c :: canvas and d :: string
  defines "C \<equiv> (of_nat (height c) * 210 / of_nat (width c) :: rat)"
  assumes "0 < width c" and "0 < height c"
  shows "pageHeight = 297 \<and> imgHeight_of c = Fin C
    \<and> (\<exists>p. paginate d c = Some p
        \<and> length (pages p) = nat \<lceil>C / pageHeight\<rceil>
        \<and> 1 \<le> length (pages p)
        \<and> (\<forall>i < length (pages p).
              pages p ! i = [Image d 0 (- (of_nat i * pageHeight)) 210 (Fin C)])
        \<and> pages p ! 0 = [Image d 0 0 210 (Fin C)]
        \<and> (\<forall>k. C = of_nat k * pageHeight
              \<longrightarrow> length (pages p) = k \<and> [] \<notin> set (pages p)))"
proof -
  from assms(2) have fin: "imgHeight_of c = Fin C"
    unfolding C_def by (rule imgHeight_of_finite)
  from assms(2,3) have pos: "0 < C" unfolding C_def by simp
  from paginate_pages[OF fin pos, of d] obtain p where
    p: "paginate d c = Some p"
    and pg: "pages p = map (\<lambda>i. [Image d 0 (- (of_nat i * pageHeight)) imgWidth (Fin C)])
                   [0 ..< nat \<lceil>C / pageHeight\<rceil>]"
    by blast
  have len: "length (pages p) = nat \<lceil>C / pageHeight\<rceil>"
    by (simp add: pg)
  from pos have "0 < C / pageHeight" by (simp add: pageHeight_def)
  then have "0 < \<lceil>C / pageHeight\<rceil>" by simp
  with len have one: "1 \<le> length (pages p)" by linarith
  have nth: "pages p ! i = [Image d 0 (- (of_nat i * pageHeight)) 210 (Fin C)]"
    if "i < length (pages p)" for i
    using that unfolding len by (simp add: pg imgWidth_def)
  from one have "0 < length (pages p)" by linarith
  from nth[OF this] have zero: "pages p ! 0 = [Image d 0 0 210 (Fin C)]"
    by simp
  have mult: "length (pages p) = k \<and> [] \<notin> set (pages p)"
    if "C = of_nat k * pageHeight" for k
  proof
    from that have "C / pageHeight = of_nat k" by (simp add: pageHeight_def)
    then show "length (pages p) = k" by (simp add: len)
    show "[] \<notin> set (pages p)" by (auto simp: pg)
  qed
  have "length (pages p) = nat \<lceil>C / pageHeight\<rceil>
        \<and> 1 \<le> length (pages p)
        \<and> (\<forall>i < length (pages p).
              pages p ! i = [Image d 0 (- (of_nat i * pageHeight)) 210 (Fin C)])
        \<and> pages p ! 0 = [Image d 0 0 210 (Fin C)]
        \<and> (\<forall>k. C = of_nat k * pageHeight
              \<longrightarrow> length (pages p) = k \<and> [] \<notin> set (pages p))"
  proof (intro conjI allI impI)
    show "length (pages p) = nat \<lceil>C / pageHeight\<rceil>" by (rule len)
    show "1 \<le> length (pages p)" by (rule one)
    show "pages p ! i = [Image d 0 (- (of_nat i * pageHeight)) 210 (Fin C)]"
      if "i < length (pages p)" for i
      using that by (rule nth)
    show "pages p ! 0 = [Image d 0 0 210 (Fin C)]" by (rule zero)
    show "length (pages p) = k" if "C = of_nat k * pageHeight" for k
      using mult[OF that] by (rule conjunct1)
    show "[] \<notin> set (pages p)" if "C = of_nat k * pageHeight" for k
      using mult[OF that] by (rule conjunct2)
  qed
  with p have "\<exists>p. paginate d c = Some p
        \<and> length (pages p) = nat \<lceil>C / pageHeight\<rceil>
        \<and> 1 \<le> length (pages p)
        \<and> (\<forall>i < length (pages p).
              pages p ! i = [Image d 0 (- (of_nat i * pageHeight)) 210 (Fin C)])
        \<and> pages p ! 0 = [Image d 0 0 210 (Fin C)]
        \<and> (\<forall>k. C = of_nat k * pageHeight
              \<longrightarrow> length (pages p) = k \<and> [] \<notin> set (pages p))"
    by blast
  moreover have "pageHeight = 297" by (simp add: pageHeight_def)
  ultimately show ?thesis using fin by blast
qed

theorem paginate_page_count_and_offsets_witness:
  "map_option pages (paginate ''jpeg'' \<lparr>width = 210, height = 594\<rparr>)
     = Some [[Image ''jpeg'' 0 0 210 (Fin 594)], [Image ''jpeg'' 0 (- 297) 210 (Fin 594)]]"
proof -
  let ?c = "\<lparr>width = 210, height = 594\<rparr>"
  have w: "0 < width ?c" "0 < height ?c" by simp_all
  have C: "(of_nat (height ?c) * 210 / of_nat (width ?c) :: rat) = 594" by simp
  from paginate_page_count_and_offsets[OF w, of "''jpeg''", unfolded C]
  obtain p where p: "paginate ''jpeg'' ?c = Some p"
    and l: "length (pages p) = nat \<lceil>594 / pageHeight\<rceil>"
    and a: "\<forall>i < length (pages p).
       pages p ! i = [Image ''jpeg'' 0 (- (of_nat i * pageHeight)) 210 (Fin 594)]"
    by blast
  from l have l2: "length (pages p) = 2" by (simp add: pageHeight_def)
  with a have "pages p ! 0 = [Image ''jpeg'' 0 (- (of_nat 0 * pageHeight)) 210 (Fin 594)]"
    "pages p ! 1 = [Image ''jpeg'' 0 (- (of_nat 1 * pageHeight)) 210 (Fin 594)]"
    by simp_all
  then have n: "pages p ! 0 = [Image ''jpeg'' 0 0 210 (Fin 594)]"
    "pages p ! 1 = [Image ''jpeg'' 0 (- 297) 210 (Fin 594)]"
    by (simp_all add: pageHeight_def)
  from l2 obtain x y where xy: "pages p = [x, y]"
    by (auto simp: length_Suc_conv numeral_2_eq_2)
  with n have "pages p
      = [[Image ''jpeg'' 0 0 210 (Fin 594)], [Image ''jpeg'' 0 (- 297) 210 (Fin 594)]]"
    by simp
  with p show ?thesis by simp
qed

section \<open>Properties of the conversion pipeline\<close>

subsection \<open>What each step leaves untouched\<close>

lemma fetchClaudeContent_frame:
  "downloads (snd (fetchClaudeContent e sid w)) = downloads w
   \<and> body_children (snd (fetchClaudeContent e sid w)) = body_children w
   \<and> timers (snd (fetchClaudeContent e sid w)) = timers w
   \<and> iframes_created (snd (fetchClaudeContent e sid w)) = iframes_created w"
proof -
  consider (some) k html where "k < length corsProxies"
      "\<forall>j<k. proxy_answer e sid corsProxies w j = None"
      "proxy_answer e sid corsProxies w k = Some html"
    | (none) "\<forall>j<length corsProxies. proxy_answer e sid corsProxies w j = None"
    using first_success_or_all_fail[of "length corsProxies" "proxy_answer e sid corsProxies w"]
    by auto
  then show ?thesis
  proof cases
    case some
    from fetchClaudeContent_first_success[OF this] show ?thesis by auto
  next
    case none
    from fetchClaudeContent_all_fail[OF this] show ?thesis by auto
  qed
qed

lemma fetchClaudeContent_Pair:
  assumes "fetchClaudeContent e sid w = (r, w1)"
  shows "downloads w1 = downloads w" and "body_children w1 = body_children w"
    and "timers w1 = timers w" and "iframes_created w1 = iframes_created w"
  using fetchClaudeContent_frame[of e sid w] assms by simp_all

lemma createTemporaryIframe_Inr:
  assumes "createTemporaryIframe e html w = (Inr iframe, w2)"
  shows "iframe \<in> set (body_children w2)" and "downloads w2 = downloads w"
    and "requests w2 = requests w" and "iframe_load e html = Loaded"
    and "body_children w2 = body_children w @ [iframe]" and "iframe = iframes_created w"
    and "timers w2 = removeAll iframe (timers w)"
  using assms
  by (auto simp: createTemporaryIframe_def Let_def split: iframe_outcome.splits)

lemma createTemporaryIframe_Inl:
  assumes "createTemporaryIframe e html w = (Inl err, w2)"
  shows "downloads w2 = downloads w" and "requests w2 = requests w"
  using assms
  by (auto simp: createTemporaryIframe_def Let_def split: iframe_outcome.splits)

lemma save_fields [simp]:
  "downloads (save p name w) = downloads w @ [(name, p)]"
  "body_children (save p name w) = body_children w"
  "requests (save p name w) = requests w"
  "timers (save p name w) = timers w"
  "console (save p name w) = console w"
  by (simp_all add: save_def)

lemma removeChild_attached:
  "iframe \<in> set (body_children w) \<Longrightarrow>
   \<exists>w'. removeChild iframe w = Inr w' \<and> downloads w' = downloads w
        \<and> body_children w' = removeAll iframe (body_children w)"
  by (simp add: removeChild_def)

lemma extractShareId_not_empty:
  "extractShareId newURL url = Inr (Some sid) \<Longrightarrow> sid \<noteq> []"
  by (auto simp: extract_Some_iff validate_True_iff)

lemma extractShareId_total: "\<exists>r. extractShareId newURL url = Inr r"
  using validate_total[of newURL url]
  by (auto simp: extractShareId_def split: option.splits)

subsection \<open>How the primary pipeline ends\<close>

lemma convertClaudeToPdf_try_outcomes:
  assumes sid: "extractShareId newURL url = Inr (Some sid)"
  shows "(fst (convertClaudeToPdf_try newURL e url w) = Some (Inr ())
          \<and> (\<exists>doc. downloads (snd (convertClaudeToPdf_try newURL e url w))
                      = downloads w @ [(download_name sid, doc)]))
       \<or> ((\<exists>err. fst (convertClaudeToPdf_try newURL e url w) = Some (Inl err))
          \<and> downloads (snd (convertClaudeToPdf_try newURL e url w)) = downloads w)
       \<or> (fst (convertClaudeToPdf_try newURL e url w) = None
          \<and> downloads (snd (convertClaudeToPdf_try newURL e url w)) = downloads w
          \<and> (\<exists>html c. html2canvas e html = Inr c \<and> width c = 0 \<and> 0 < height c))"
proof -
  note ne = extractShareId_not_empty[OF sid]
  obtain r1 w1 where f: "fetchClaudeContent e sid w = (r1, w1)"
    by (cases "fetchClaudeContent e sid w")
  note f1 = fetchClaudeContent_Pair[OF f]
  show ?thesis
  proof (cases r1)
    case (Inl err)
    with sid ne f f1 show ?thesis by (simp add: convertClaudeToPdf_try_def)
  next
    case (Inr htmlContent)
    obtain r2 w2 where c: "createTemporaryIframe e (processHtml htmlContent) w1 = (r2, w2)"
      by (cases "createTemporaryIframe e (processHtml htmlContent) w1")
    show ?thesis
    proof (cases r2)
      case (Inl err)
      with c createTemporaryIframe_Inl[of e "processHtml htmlContent" w1 err w2]
      have "downloads w2 = downloads w1" by simp
      with sid ne f f1 Inr c Inl show ?thesis
        by (simp add: convertClaudeToPdf_try_def)
    next
      case (Inr iframe)
      with c have c': "createTemporaryIframe e (processHtml htmlContent) w1 = (Inr iframe, w2)"
        by simp
      note c2 = createTemporaryIframe_Inr[OF c']
      have att: "iframe \<in> set (body_children (save p name w2))" for p name
        using c2(1) by simp
      from removeChild_attached[OF att]
      have rm: "\<exists>w'. removeChild iframe (save p name w2) = Inr w'
          \<and> downloads w' = downloads w2 @ [(name, p)]" for p name
        by (metis save_fields(1))
      show ?thesis
      proof (cases "\<exists>c imageData. has_element e (processHtml htmlContent)
          \<and> html2canvas e (processHtml htmlContent) = Inr c
          \<and> toDataURL e c = Inr imageData \<and> addImage_error e imageData c = None")
        case True
        then obtain c imageData where ok: "has_element e (processHtml htmlContent)"
          "html2canvas e (processHtml htmlContent) = Inr c"
          "toDataURL e c = Inr imageData" "addImage_error e imageData c = None"
          by auto
        show ?thesis
        proof (cases "paginate imageData c")
          case None
          then have "width c = 0 \<and> 0 < height c" by (simp add: paginate_None_iff)
          with ok(2) have z: "\<exists>html c. html2canvas e html = Inr c \<and> width c = 0 \<and> 0 < height c"
            by blast
          have "convertClaudeToPdf_try newURL e url w = (None, w2)"
            using sid ne f \<open>r1 = Inr htmlContent\<close> c' ok None
            by (simp add: convertClaudeToPdf_try_def Let_def)
          with z c2(2) f1(1) show ?thesis by simp
        next
          case (Some doc)
          from rm[of doc "download_name sid"] obtain w4 where
            w4: "removeChild iframe (save doc (download_name sid) w2) = Inr w4"
              "downloads w4 = downloads w2 @ [(download_name sid, doc)]"
            by blast
          have "convertClaudeToPdf_try newURL e url w = (Some (Inr ()), w4)"
            using sid ne f \<open>r1 = Inr htmlContent\<close> c' ok Some w4(1)
            by (simp add: convertClaudeToPdf_try_def Let_def)
          with w4(2) c2(2) f1(1) show ?thesis by simp
        qed
      next
        case False
        then have "\<exists>err. convertClaudeToPdf_try newURL e url w = (Some (Inl err), w2)"
          using sid ne f \<open>r1 = Inr htmlContent\<close> c'
          by (auto simp: convertClaudeToPdf_try_def Let_def split: sum.splits option.splits)
        with c2(2) f1(1) show ?thesis by auto
      qed
    qed
  qed
qed

lemma fallbackPdfGeneration_valid:
  "extractShareId newURL url = Inr (Some sid) \<Longrightarrow>
   fallbackPdfGeneration newURL url w
     = (Inr (), save (fallback_pdf sid) (download_name sid) w)"
  using extractShareId_not_empty[of newURL url sid]
  by (simp add: fallbackPdfGeneration_def)

lemma convertClaudeToPdf_fallback:
  assumes sid: "extractShareId newURL url = Inr (Some sid)"
    and fail: "fst (convertClaudeToPdf_try newURL e url w) = Some (Inl err)"
  shows "fst (convertClaudeToPdf newURL e url w) = Some (Inr ())"
    and "downloads (snd (convertClaudeToPdf newURL e url w))
           = downloads w @ [(download_name sid, fallback_pdf sid)]"
proof -
  obtain w' where t: "convertClaudeToPdf_try newURL e url w = (Some (Inl err), w')"
    using fail by (cases "convertClaudeToPdf_try newURL e url w") simp
  from convertClaudeToPdf_try_outcomes[OF sid, of e w] t
  have d: "downloads w' = downloads w" by simp
  have "convertClaudeToPdf newURL e url w
      = (Some (Inr ()), save (fallback_pdf sid) (download_name sid)
                          (log (Err ''Error converting to PDF:'' err) w'))"
    by (simp add: convertClaudeToPdf_def t fallbackPdfGeneration_valid[OF sid])
  with d show "fst (convertClaudeToPdf newURL e url w) = Some (Inr ())"
    and "downloads (snd (convertClaudeToPdf newURL e url w))
           = downloads w @ [(download_name sid, fallback_pdf sid)]"
    by simp_all
qed

lemma convertClaudeToPdf_primary:
  assumes "fst (convertClaudeToPdf_try newURL e url w) = Some (Inr u)"
  shows "convertClaudeToPdf newURL e url w = convertClaudeToPdf_try newURL e url w"
  using assms
  by (cases "convertClaudeToPdf_try newURL e url w") (simp add: convertClaudeToPdf_def)

lemma convertClaudeToPdf_pending:
  assumes "fst (convertClaudeToPdf_try newURL e url w) = None"
  shows "convertClaudeToPdf newURL e url w = convertClaudeToPdf_try newURL e url w"
  using assms
  by (cases "convertClaudeToPdf_try newURL e url w") (simp add: convertClaudeToPdf_def)

lemma convertClaudeToPdf_invalid:
  assumes "extractShareId newURL url = Inr None"
  shows "convertClaudeToPdf newURL e url w
     = (Some (Inl generation_failed_error),
        w\<lparr>console := console w
            @ [Err ''Error converting to PDF:'' invalid_link_error,
               Err ''Fallback PDF generation also failed:'' invalid_link_error]\<rparr>)"
  using assms
  by (simp add: convertClaudeToPdf_def convertClaudeToPdf_try_def
      fallbackPdfGeneration_def log_def)

lemma fallback_pdf_pages:
  "pages (fallback_pdf sid) =
     [[Text 16 ''Claude Conversation'' 105 20 True,
       Text 12 (''Share URL: https://claude.ai/share/'' @ sid) 20 40 False,
       Text 12 ''The automatic PDF generation encountered technical difficulties.''
         20 60 False,
       Text 12 ''To save this conversation as PDF, please try one of these alternatives:''
         20 70 False,
       Text 12 (''1. Open the share URL in your browser and use the browser'' @ [CHR 0x27]
                @ ''s print function'') 20 85 False,
       Text 12 ''   (Select \"Save as PDF\" as the printer)'' 20 95 False,
       Text 12 ''2. Try again later when the service might be more stable'' 20 110 False,
       Text 12 ''3. Take screenshots of the conversation'' 20 125 False]]"
  by (simp add: fallback_pdf_def Let_def new_jsPDF_def setFontSize_def text_at_def
      text_centered_def draw_on_current_def)
lemma convertClaudeToPdf_try_fetch_fails:
  assumes "extractShareId newURL url = Inr (Some sid)"
    and "fst (fetchClaudeContent e sid w) = Inl err"
  shows "fst (convertClaudeToPdf_try newURL e url w) = Some (Inl err)"
  using assms extractShareId_not_empty[OF assms(1)]
  by (cases "fetchClaudeContent e sid w") (simp add: convertClaudeToPdf_try_def)

text \<open>
  The pipeline after a page was fetched and its iframe loaded, when \<^verbatim>\<open>html2canvas\<close>
  rejects: the fallback document is saved and the iframe stays attached.
\<close>

lemma convertClaudeToPdf_render_fails:
  assumes sid: "extractShareId newURL url = Inr (Some sid)"
    and f: "fetchClaudeContent e sid w = (Inr html, w1)"
    and l: "iframe_load e (processHtml html) = Loaded"
    and h: "has_element e (processHtml html)"
    and r: "html2canvas e (processHtml html) = Inl err"
  shows "fst (convertClaudeToPdf newURL e url w) = Some (Inr ())"
    and "body_children (snd (convertClaudeToPdf newURL e url w))
           = body_children w @ [iframes_created w]"
    and "timers (snd (convertClaudeToPdf newURL e url w))
           = removeAll (iframes_created w) (timers w)"
proof -
  note f1 = fetchClaudeContent_Pair[OF f]
  obtain r2 w2 where c: "createTemporaryIframe e (processHtml html) w1 = (r2, w2)"
    by (cases "createTemporaryIframe e (processHtml html) w1")
  with l have r2: "r2 = Inr (iframes_created w1)"
    by (auto simp: createTemporaryIframe_def Let_def)
  with c have c': "createTemporaryIframe e (processHtml html) w1
      = (Inr (iframes_created w1), w2)"
    by simp
  note c2 = createTemporaryIframe_Inr[OF c']
  have t: "convertClaudeToPdf_try newURL e url w = (Some (Inl err), w2)"
    using sid extractShareId_not_empty[OF sid] f c' h r
    by (simp add: convertClaudeToPdf_try_def Let_def)
  have "convertClaudeToPdf newURL e url w
      = (Some (Inr ()), save (fallback_pdf sid) (download_name sid)
                          (log (Err ''Error converting to PDF:'' err) w2))"
    by (simp add: convertClaudeToPdf_def t fallbackPdfGeneration_valid[OF sid])
  then show "fst (convertClaudeToPdf newURL e url w) = Some (Inr ())"
    and "body_children (snd (convertClaudeToPdf newURL e url w))
           = body_children w @ [iframes_created w]"
    and "timers (snd (convertClaudeToPdf newURL e url w))
           = removeAll (iframes_created w) (timers w)"
    using c2(5,7) f1 by simp_all
qed


lemma sample_link_id: "extractShareId URL_http sample_link = Inr (Some sample_id)"
  by code_simp

lemma offline_fetch_fails:
  "fst (fetchClaudeContent env_offline sample_id world0) = Inl (Error fetch_failed_message)"
proof -
  have a: "\<forall>j<length corsProxies.
      proxy_answer env_offline sample_id corsProxies world0 j = None"
    by (simp add: proxy_answer_def env_offline_def success_body_def)
  have d: "success_body (fetch_result env_offline
      (requests world0 @ map (proxy_request sample_id) corsProxies
       @ [direct_request sample_id])) = None"
    by (simp add: env_offline_def success_body_def)
  from fetchClaudeContent_all_fail[OF a] d show ?thesis by auto
qed

lemma online_fetch_succeeds:
  assumes "fetch_result e = fetch_result env_online"
  shows "\<exists>w1. fetchClaudeContent e sample_id world0
      = (Inr ''<html><main><p>Hello</p></main></html>'', w1)"
proof -
  have k: "1 < length corsProxies" by (simp add: corsProxies_def)
  have b: "\<forall>j<1. proxy_answer e sample_id corsProxies world0 j = None"
    by (simp add: proxy_answer_def assms env_online_def env_offline_def
        success_body_def world0_def corsProxies_def)
  have c: "proxy_answer e sample_id corsProxies world0 1
      = Some ''<html><main><p>Hello</p></main></html>''"
    by (simp add: proxy_answer_def assms env_online_def env_offline_def
        success_body_def world0_def corsProxies_def)
  from fetchClaudeContent_first_success[OF k b c] show ?thesis by blast
qed

text \<open>
  When the identifier is extracted and the conversion settles, it resolves and exactly
  one file was offered, under the name built from the identifier. The conversion settles
  whenever no canvas is captured that has height and no width.
\<close>

lemma convertClaudeToPdf_settled_one_download:
  assumes sid: "extractShareId newURL url = Inr (Some sid)"
    and settled: "fst (convertClaudeToPdf newURL e url w) \<noteq> None"
  shows "fst (convertClaudeToPdf newURL e url w) = Some (Inr ())
    \<and> (\<exists>doc. downloads (snd (convertClaudeToPdf newURL e url w))
                = downloads w @ [(''claude-conversation-'' @ sid @ ''.pdf'', doc)]
          \<and> (\<forall>err. fst (convertClaudeToPdf_try newURL e url w) = Some (Inl err)
                \<longrightarrow> doc = fallback_pdf sid))"
proof -
  from convertClaudeToPdf_try_outcomes[OF sid, of e w]
  consider (primary) doc where "fst (convertClaudeToPdf_try newURL e url w) = Some (Inr ())"
      "downloads (snd (convertClaudeToPdf_try newURL e url w))
         = downloads w @ [(download_name sid, doc)]"
    | (fallback) err where "fst (convertClaudeToPdf_try newURL e url w) = Some (Inl err)"
    | (pending) "fst (convertClaudeToPdf_try newURL e url w) = None"
    by auto
  then show ?thesis
  proof cases
    case primary
    then show ?thesis
      by (simp add: convertClaudeToPdf_primary download_name_def)
  next
    case fallback
    from convertClaudeToPdf_fallback[OF sid this] fallback show ?thesis
      by (simp add: download_name_def)
  next
    case pending
    with settled show ?thesis by (simp add: convertClaudeToPdf_pending)
  qed
qed

lemma convertClaudeToPdf_settles:
  assumes sid: "extractShareId newURL url = Inr (Some sid)"
    and wide: "\<forall>html c. html2canvas e html = Inr c \<longrightarrow> 0 < width c \<or> height c = 0"
  shows "fst (convertClaudeToPdf newURL e url w) \<noteq> None"
proof
  assume n: "fst (convertClaudeToPdf newURL e url w) = None"
  from convertClaudeToPdf_try_outcomes[OF sid, of e w]
  consider (primary) "fst (convertClaudeToPdf_try newURL e url w) = Some (Inr ())"
    | (fallback) err where "fst (convertClaudeToPdf_try newURL e url w) = Some (Inl err)"
    | (pending) html c where "html2canvas e html = Inr c" "width c = 0" "0 < height c"
    by auto
  then show False
  proof cases
    case primary
    with n show False by (simp add: convertClaudeToPdf_primary)
  next
    case fallback
    from convertClaudeToPdf_fallback(1)[OF sid this] n show False by simp
  next
    case pending
    with wide show False by fastforce
  qed
qed

text \<open>
  Claim C1. When the identifier was extracted and the pipeline then fails (the body of
  the \<^verbatim>\<open>try\<close> block throws, whatever the step), \<open>convertClaudeToPdf\<close> resolves: it
  saves the fallback document, whose page names the link rebuilt from the identifier and
  carries the instruction to use the print function of the browser and the instruction
  to try again later. \<open>convertClaudeToPdf\<close> rejects only when no identifier could be
  extracted from the link. The calls of \<^verbatim>\<open>jsPDF\<close> that build and save the fallback
  document are taken not to throw.
\<close>

theorem convertClaudeToPdf_failure_becomes_fallback:
  "(\<forall>sid err. extractShareId newURL url = Inr (Some sid)
        \<and> fst (convertClaudeToPdf_try newURL e url w) = Some (Inl err)
      \<longrightarrow> fst (convertClaudeToPdf newURL e url w) = Some (Inr ())
          \<and> downloads (snd (convertClaudeToPdf newURL e url w))
              = downloads w @ [(download_name sid, fallback_pdf sid)]
          \<and> Text 12 (''Share URL: https://claude.ai/share/'' @ sid) 20 40 False
              \<in> set (concat (pages (fallback_pdf sid)))
          \<and> Text 12 (''1. Open the share URL in your browser and use the browser''
                      @ [CHR 0x27] @ ''s print function'') 20 85 False
              \<in> set (concat (pages (fallback_pdf sid)))
          \<and> Text 12 ''2. Try again later when the service might be more stable'' 20 110 False
              \<in> set (concat (pages (fallback_pdf sid))))
   \<and> (\<forall>x. fst (convertClaudeToPdf newURL e url w) = Some (Inl x)
      \<longrightarrow> extractShareId newURL url = Inr None)"
proof (intro conjI allI impI)
  fix sid err
  assume a: "extractShareId newURL url = Inr (Some sid)
        \<and> fst (convertClaudeToPdf_try newURL e url w) = Some (Inl err)"
  then have sid: "extractShareId newURL url = Inr (Some sid)"
    and fail: "fst (convertClaudeToPdf_try newURL e url w) = Some (Inl err)"
    by simp_all
  from convertClaudeToPdf_fallback[OF sid fail]
  show "fst (convertClaudeToPdf newURL e url w) = Some (Inr ())"
    and "downloads (snd (convertClaudeToPdf newURL e url w))
              = downloads w @ [(download_name sid, fallback_pdf sid)]"
    by simp_all
  show "Text 12 (''Share URL: https://claude.ai/share/'' @ sid) 20 40 False
      \<in> set (concat (pages (fallback_pdf sid)))"
    by (simp add: fallback_pdf_pages)
  show "Text 12 (''1. Open the share URL in your browser and use the browser''
                      @ [CHR 0x27] @ ''s print function'') 20 85 False
      \<in> set (concat (pages (fallback_pdf sid)))"
    by (simp add: fallback_pdf_pages)
  show "Text 12 ''2. Try again later when the service might be more stable'' 20 110 False
      \<in> set (concat (pages (fallback_pdf sid)))"
    by (simp add: fallback_pdf_pages)
next
  fix x
  assume rej: "fst (convertClaudeToPdf newURL e url w) = Some (Inl x)"
  obtain r where r: "extractShareId newURL url = Inr r"
    using extractShareId_total[of newURL url] by blast
  show "extractShareId newURL url = Inr None"
  proof (cases r)
    case None
    with r show ?thesis by simp
  next
    case (Some sid)
    with r have sid: "extractShareId newURL url = Inr (Some sid)" by simp
    from rej have "fst (convertClaudeToPdf newURL e url w) \<noteq> None" by simp
    from convertClaudeToPdf_settled_one_download[OF sid this] rej show ?thesis by simp
  qed
qed

theorem convertClaudeToPdf_failure_becomes_fallback_witness:
  "fst (convertClaudeToPdf URL_http env_offline sample_link world0) = Some (Inr ())
   \<and> downloads (snd (convertClaudeToPdf URL_http env_offline sample_link world0))
       = [(download_name sample_id, fallback_pdf sample_id)]"
proof -
  have "fst (convertClaudeToPdf_try URL_http env_offline sample_link world0)
      = Some (Inl (Error fetch_failed_message))"
    using sample_link_id offline_fetch_fails by (rule convertClaudeToPdf_try_fetch_fails)
  with sample_link_id
    convertClaudeToPdf_failure_becomes_fallback[of URL_http sample_link env_offline world0]
  have "fst (convertClaudeToPdf URL_http env_offline sample_link world0) = Some (Inr ())
      \<and> downloads (snd (convertClaudeToPdf URL_http env_offline sample_link world0))
          = downloads world0 @ [(download_name sample_id, fallback_pdf sample_id)]"
    by blast
  then show ?thesis by (simp add: world0_def)
qed

text \<open>
  Claim C2 does not hold of the code. The iframe is removed at the end of the
  \<^verbatim>\<open>try\<close> block and by the load timer only. With a page fetched through the second
  proxy, the iframe loaded and \<^verbatim>\<open>html2canvas\<close> rejecting, the conversion resolves with
  the fallback document and the iframe it created (number 0) is still attached to the
  body, with no timer left to remove it.
\<close>

theorem convertClaudeToPdf_leaves_iframe_attached:
  "fst (convertClaudeToPdf URL_http env_render_fails sample_link world0) = Some (Inr ())
   \<and> body_children (snd (convertClaudeToPdf URL_http env_render_fails sample_link world0))
       = [0]
   \<and> timers (snd (convertClaudeToPdf URL_http env_render_fails sample_link world0)) = []"
proof -
  have "fetch_result env_render_fails = fetch_result env_online"
    by (simp add: env_render_fails_def)
  from online_fetch_succeeds[OF this] obtain w1 where
    f: "fetchClaudeContent env_render_fails sample_id world0
      = (Inr ''<html><main><p>Hello</p></main></html>'', w1)"
    by blast
  have l: "iframe_load env_render_fails
      (processHtml ''<html><main><p>Hello</p></main></html>'') = Loaded"
    and h: "has_element env_render_fails
      (processHtml ''<html><main><p>Hello</p></main></html>'')"
    and r: "html2canvas env_render_fails
      (processHtml ''<html><main><p>Hello</p></main></html>'')
        = Inl (Error ''Unable to render element'')"
    by (simp_all add: env_render_fails_def env_online_def env_offline_def)
  from convertClaudeToPdf_render_fails[OF sample_link_id f l h r]
  show ?thesis by (simp add: world0_def)
qed

text \<open>
  Claim C3 does not hold of the code. On \<^verbatim>\<open>https://claude.ai/shared/abc\<close> no identifier
  is extracted, and no request is issued and no document is offered, as the claim says.
  But the invalid-link error is thrown inside the \<^verbatim>\<open>try\<close> block, whose handler catches
  it: the fallback generator is called, fails at its own check of the identifier, and
  the error that reaches the caller is the general failure of the generation, not the
  invalid-link error, which the console alone shows.
\<close>

theorem convertClaudeToPdf_invalid_link_error_replaced:
  "extractShareId URL_http ''https://claude.ai/shared/abc'' = Inr None
   \<and> fst (convertClaudeToPdf URL_http env_online ''https://claude.ai/shared/abc'' world0)
       = Some (Inl (Error
           ''Failed to generate PDF. Please try again or use browser print function.''))
   \<and> fst (convertClaudeToPdf URL_http env_online ''https://claude.ai/shared/abc'' world0)
       \<noteq> Some (Inl (Error ''Invalid Claude share URL''))
   \<and> requests (snd (convertClaudeToPdf URL_http env_online ''https://claude.ai/shared/abc''
        world0)) = []
   \<and> downloads (snd (convertClaudeToPdf URL_http env_online ''https://claude.ai/shared/abc''
        world0)) = []
   \<and> console (snd (convertClaudeToPdf URL_http env_online ''https://claude.ai/shared/abc''
        world0))
       = [Err ''Error converting to PDF:'' (Error ''Invalid Claude share URL''),
          Err ''Fallback PDF generation also failed:'' (Error ''Invalid Claude share URL'')]"
proof -
  have x: "extractShareId URL_http ''https://claude.ai/shared/abc'' = Inr None" by code_simp
  show ?thesis
    unfolding convertClaudeToPdf_invalid[OF x]
    using x by (simp add: generation_failed_error_def invalid_link_error_def world0_def)
qed


end
